theory Spec2Isabelle
  imports Complex_Main
begin

section \<open>JavaScript primitives used by the services\<close>

text \<open>
  Strings are \<open>string\<close> (lists of 8-bit characters): the model covers JavaScript strings
  whose code units lie below 256. A JavaScript number that the services only ever use as
  an integer or as NaN is a \<open>jsnum\<close>: \<open>None\<close> is NaN, \<open>Some n\<close> the integer \<open>n\<close>
  (exact below \<open>2 ^ 53\<close>, where doubles hold every integer).
\<close>

type_synonym jsnum = "int option"

text \<open>
  A JavaScript number that need not be an integer is a \<open>jsreal\<close>: a finite value, NaN or
  one of the two infinities. The finite values are real numbers: the rounding and the
  overflow of doubles are not modelled, and zero is the positive zero.
\<close>

datatype jsreal = Fin real | NaN | PInf | NInf

text \<open>\<open>a / b\<close> for finite \<open>a\<close> and \<open>b\<close>: \<open>0 / 0\<close> is NaN, any other \<open>a / 0\<close> is infinite.\<close>

definition js_div :: "real \<Rightarrow> real \<Rightarrow> jsreal" where
  "js_div a b =
     (if b \<noteq> 0 then Fin (a / b) else if a = 0 then NaN else if 0 < a then PInf else NInf)"

text \<open>\<open>a * v\<close> for finite \<open>a\<close>: \<open>0 * Infinity\<close> is NaN.\<close>

definition js_mul :: "real \<Rightarrow> jsreal \<Rightarrow> jsreal" where
  "js_mul a v =
     (case v of
        Fin b \<Rightarrow> Fin (a * b)
      | NaN \<Rightarrow> NaN
      | PInf \<Rightarrow> (if a = 0 then NaN else if 0 < a then PInf else NInf)
      | NInf \<Rightarrow> (if a = 0 then NaN else if 0 < a then NInf else PInf))"

text \<open>\<open>v - b\<close> for finite \<open>b\<close>.\<close>

definition js_sub :: "jsreal \<Rightarrow> real \<Rightarrow> jsreal" where
  "js_sub v b = (case v of Fin a \<Rightarrow> Fin (a - b) | NaN \<Rightarrow> NaN | PInf \<Rightarrow> PInf | NInf \<Rightarrow> NInf)"

definition NL :: char where
  "NL = CHR 0x0A"

text \<open>WhiteSpace and LineTerminator code points below 256: TAB, LF, VT, FF, CR, SP, NBSP.\<close>

definition is_js_whitespace :: "char \<Rightarrow> bool" where
  "is_js_whitespace c =
     (c = CHR 0x09 \<or> c = CHR 0x0A \<or> c = CHR 0x0B \<or> c = CHR 0x0C \<or> c = CHR 0x0D
      \<or> c = CHR 0x20 \<or> c = CHR 0xA0)"

text \<open>\<open>String.prototype.trim\<close>: white space is removed from both ends.\<close>

definition trim :: "string \<Rightarrow> string" where
  "trim s = rev (dropWhile is_js_whitespace (rev (dropWhile is_js_whitespace s)))"

text \<open>The value of a character as a digit of \<open>parseInt\<close>: 0-9, a-z and A-Z.\<close>

definition digit_val :: "char \<Rightarrow> nat option" where
  "digit_val c =
     (let n = (of_char c :: nat) in
      if 48 \<le> n \<and> n \<le> 57 then Some (n - 48)
      else if 97 \<le> n \<and> n \<le> 122 then Some (n - 87)
      else if 65 \<le> n \<and> n \<le> 90 then Some (n - 55)
      else None)"

definition is_radix_digit :: "nat \<Rightarrow> char \<Rightarrow> bool" where
  "is_radix_digit R c = (case digit_val c of None \<Rightarrow> False | Some d \<Rightarrow> d < R)"

definition digits_value :: "nat \<Rightarrow> string \<Rightarrow> nat" where
  "digits_value R ds = foldl (\<lambda>acc c. acc * R + the (digit_val c)) 0 ds"

text \<open>
  The common part of \<open>parseInt\<close> once the radix \<open>R\<close> is fixed and the sign is read: the
  longest prefix of radix-\<open>R\<close> digits; NaN when that prefix is empty.
\<close>

definition parseInt_digits :: "nat \<Rightarrow> int \<Rightarrow> string \<Rightarrow> jsnum" where
  "parseInt_digits R sign s =
     (let ds = takeWhile (is_radix_digit R) s in
      if ds = [] then None else Some (sign * int (digits_value R ds)))"

fun read_sign :: "string \<Rightarrow> int \<times> string" where
  "read_sign [] = (1, [])"
| "read_sign (c # cs) =
     (if c = CHR ''-'' then (- 1, cs) else if c = CHR ''+'' then (1, cs) else (1, c # cs))"

fun has_hex_prefix :: "string \<Rightarrow> bool" where
  "has_hex_prefix (a # b # cs) = (a = CHR ''0'' \<and> (b = CHR ''x'' \<or> b = CHR ''X''))"
| "has_hex_prefix cs = False"

text \<open>\<open>parseInt(s, 10)\<close>: leading white space, an optional sign, decimal digits.\<close>

definition parseInt_10 :: "string \<Rightarrow> jsnum" where
  "parseInt_10 s =
     (let (sign, rest) = read_sign (dropWhile is_js_whitespace s)
      in parseInt_digits 10 sign rest)"

text \<open>
  \<open>parseInt(s)\<close> with no radix: as above, but a \<open>0x\<close> or \<open>0X\<close> after the sign selects
  radix 16 and is skipped.
\<close>

definition parseInt :: "string \<Rightarrow> jsnum" where
  "parseInt s =
     (let (sign, rest) = read_sign (dropWhile is_js_whitespace s)
      in if has_hex_prefix rest then parseInt_digits 16 sign (drop 2 rest)
         else parseInt_digits 10 sign rest)"

text \<open>\<open>n || 0\<close> on a number: NaN and 0 are falsy.\<close>

definition or_zero :: "jsnum \<Rightarrow> int" where
  "or_zero n = (case n of None \<Rightarrow> 0 | Some v \<Rightarrow> v)"

text \<open>\<open>Number.prototype.toString\<close> and template interpolation of an integer.\<close>

definition digit_char :: "nat \<Rightarrow> char" where
  "digit_char d = ''0123456789'' ! d"

fun nat_to_string :: "nat \<Rightarrow> string" where
  "nat_to_string n =
     (if n < 10 then [digit_char n] else nat_to_string (n div 10) @ [digit_char (n mod 10)])"

definition int_to_string :: "int \<Rightarrow> string" where
  "int_to_string i = (if i < 0 then CHR ''-'' # nat_to_string (nat (- i)) else nat_to_string (nat i))"

text \<open>\<open>Array.prototype.findIndex\<close>: the first index whose element satisfies \<open>p\<close>, or \<open>-1\<close>.\<close>

fun findIndex :: "('a \<Rightarrow> bool) \<Rightarrow> 'a list \<Rightarrow> int" where
  "findIndex p [] = - 1"
| "findIndex p (a # as) =
     (if p a then 0 else (let i = findIndex p as in if i < 0 then - 1 else i + 1))"


section \<open>Data model (src/types/index.ts)\<close>

record BoundingBox =
  bbox_x :: jsreal
  bbox_y :: jsreal
  bbox_width :: jsreal
  bbox_height :: jsreal

record Detection =
  det_id :: string
  det_bbox :: BoundingBox
  det_confidence :: real
  det_class :: "string option"
  det_manual :: "bool option"

text \<open>
  \<open>timestamp\<close> and \<open>createdAt\<close> are \<open>Date\<close> values that every reader gets back from the
  JSON store as strings; they are strings here.
\<close>

record ImageCount =
  img_id :: string
  img_path :: string
  img_count :: int
  img_timestamp :: string
  img_corrections :: int
  img_detections :: "Detection list"

record Session =
  sess_id :: string
  sess_name :: string
  sess_createdAt :: string
  sess_images :: "ImageCount list"
  sess_totalCount :: int
  sess_objectType :: "string option"


section \<open>StorageService\<close>

text \<open>
  The state is the value stored under the sessions key: \<open>None\<close> while nothing has been
  written. Writes to the store are taken to succeed. \<open>Error('Session not found')\<close> is the
  only exception the service raises itself.
\<close>

type_synonym storage = "Session list option"

datatype error = SessionNotFound

definition getAllSessions :: "storage \<Rightarrow> Session list" where
  "getAllSessions st = (case st of None \<Rightarrow> [] | Some sessions \<Rightarrow> sessions)"

definition getSession :: "string \<Rightarrow> storage \<Rightarrow> Session option" where
  "getSession sessionId st = find (\<lambda>s. sess_id s = sessionId) (getAllSessions st)"

text \<open>
  \<open>now\<close> is \<open>Date.now()\<close> and \<open>date\<close> the stored form of \<open>new Date()\<close>. The new session
  and the new store are returned.
\<close>

definition createSession :: "string \<Rightarrow> string option \<Rightarrow> nat \<Rightarrow> string \<Rightarrow> storage \<Rightarrow> Session \<times> storage" where
  "createSession name objectType now date st =
     (let session = \<lparr> sess_id = ''session_'' @ nat_to_string now,
                       sess_name = name,
                       sess_createdAt = date,
                       sess_images = [],
                       sess_totalCount = 0,
                       sess_objectType = objectType \<rparr>
      in (session, Some (session # getAllSessions st)))"

text \<open>The function has no throwing path: its result is always \<open>Inr\<close>.\<close>

definition updateSession :: "Session \<Rightarrow> storage \<Rightarrow> error + storage" where
  "updateSession session st =
     (let sessions = getAllSessions st;
          index = findIndex (\<lambda>s. sess_id s = sess_id session) sessions
      in if index \<ge> 0 then Inr (Some (sessions[nat index := session])) else Inr st)"

definition deleteSession :: "string \<Rightarrow> storage \<Rightarrow> storage" where
  "deleteSession sessionId st = Some (filter (\<lambda>s. sess_id s \<noteq> sessionId) (getAllSessions st))"

text \<open>\<open>images.reduce((sum, img) => sum + img.count, 0)\<close>\<close>

definition sum_counts :: "ImageCount list \<Rightarrow> int" where
  "sum_counts imgs = foldl (\<lambda>sum img. sum + img_count img) 0 imgs"

definition addImageToSession ::
  "string \<Rightarrow> string \<Rightarrow> int \<Rightarrow> Detection list \<Rightarrow> nat \<Rightarrow> string \<Rightarrow> storage \<Rightarrow> error + storage" where
  "addImageToSession sessionId imagePath count detections now date st =
     (case getSession sessionId st of
        None \<Rightarrow> Inl SessionNotFound
      | Some session \<Rightarrow>
          (let imageCount = \<lparr> img_id = ''img_'' @ nat_to_string now,
                              img_path = imagePath,
                              img_count = count,
                              img_timestamp = date,
                              img_corrections = 0,
                              img_detections = detections \<rparr>;
               pushed = session\<lparr> sess_images := sess_images session @ [imageCount] \<rparr>;
               session' = pushed\<lparr> sess_totalCount := sum_counts (sess_images pushed) \<rparr>
           in updateSession session' st))"

definition updateImageCount :: "string \<Rightarrow> string \<Rightarrow> int \<Rightarrow> int \<Rightarrow> storage \<Rightarrow> error + storage" where
  "updateImageCount sessionId imageId newCount corrections st =
     (case getSession sessionId st of
        None \<Rightarrow> Inl SessionNotFound
      | Some session \<Rightarrow>
          (let i = findIndex (\<lambda>img. img_id img = imageId) (sess_images session)
           in if i \<ge> 0 then
                (let image = sess_images session ! nat i;
                     image' = image\<lparr> img_count := newCount, img_corrections := corrections \<rparr>;
                     edited = session\<lparr> sess_images := (sess_images session)[nat i := image'] \<rparr>;
                     session' = edited\<lparr> sess_totalCount := sum_counts (sess_images edited) \<rparr>
                 in updateSession session' st)
              else Inr st))"

text \<open>The loop of \<open>exportSessionAsCSV\<close>: \<open>csv += `${id},${count},${timestamp},${corrections}\n`\<close>\<close>

definition csv_row :: "ImageCount \<Rightarrow> string" where
  "csv_row img =
     img_id img @ '','' @ int_to_string (img_count img) @ '','' @ img_timestamp img @ '',''
       @ int_to_string (img_corrections img) @ [NL]"

definition exportSessionAsCSV :: "string \<Rightarrow> storage \<Rightarrow> error + string" where
  "exportSessionAsCSV sessionId st =
     (case getSession sessionId st of
        None \<Rightarrow> Inl SessionNotFound
      | Some session \<Rightarrow>
          (let csv0 = ''Image ID,Count,Timestamp,Corrections'' @ [NL];
               csv1 = foldl (\<lambda>csv img. csv @ csv_row img) csv0 (sess_images session);
               csv2 = csv1 @ [NL] @ ''Total Count:,'' @ int_to_string (sess_totalCount session) @ [NL]
           in Inr csv2))"


section \<open>Screens that call the StorageService\<close>

text \<open>
  \<open>SessionScreen.deleteImage\<close>, after the user confirms: \<open>session\<close> is the screen's own
  copy of the session (\<open>None\<close> while it is not loaded), not a fresh read of the store.
\<close>

definition deleteImage :: "Session option \<Rightarrow> string \<Rightarrow> storage \<Rightarrow> error + storage" where
  "deleteImage session imageId st =
     (case session of
        None \<Rightarrow> Inr st
      | Some s \<Rightarrow>
          (let updatedImages = filter (\<lambda>img. img_id img \<noteq> imageId) (sess_images s);
               updatedSession = s\<lparr> sess_images := updatedImages,
                                   sess_totalCount := sum_counts updatedImages \<rparr>
           in updateSession updatedSession st))"

text \<open>
  \<open>NewSessionScreen.createSession\<close>: the screen checks the name, alerts and returns when
  it is blank, and otherwise hands the trimmed name to the service. \<open>None\<close> is the
  early return (after \<open>alert('Please enter a session name')\<close>).
\<close>

definition screen_createSession ::
  "string \<Rightarrow> string \<Rightarrow> nat \<Rightarrow> string \<Rightarrow> storage \<Rightarrow> Session option \<times> storage" where
  "screen_createSession sessionName objectType now date st =
     (if trim sessionName = [] then (None, st)
      else (let (session, st') =
                  createSession (trim sessionName)
                    (if trim objectType = [] then None else Some (trim objectType)) now date st
            in (Some session, st')))"


section \<open>MLService\<close>

text \<open>
  \<open>Math.ceil\<close> and \<open>Math.sqrt\<close> are the exact ceiling and square root, with which the
  double-precision ones agree on the counts a detection list can hold.
\<close>

text \<open>\<open>Math.ceil(Math.sqrt(count))\<close>: the square root of a negative number or of NaN is NaN.\<close>

definition placeholder_cols :: "jsnum \<Rightarrow> jsnum" where
  "placeholder_cols count =
     (case count of
        None \<Rightarrow> None
      | Some c \<Rightarrow> if c < 0 then None else Some \<lceil>sqrt (real_of_int c)\<rceil>)"

text \<open>
  \<open>Math.ceil(count / cols)\<close>: NaN when either operand is NaN. \<open>cols\<close> is 0 only for
  \<open>count = 0\<close>, where the quotient \<open>0 / 0\<close> is NaN.
\<close>

definition placeholder_rows :: "jsnum \<Rightarrow> jsnum \<Rightarrow> jsnum" where
  "placeholder_rows count cols =
     (case (count, cols) of
        (Some c, Some k) \<Rightarrow> if k = 0 then None else Some \<lceil>real_of_int c / real_of_int k\<rceil>
      | _ \<Rightarrow> None)"

text \<open>\<open>i < b\<close> for a loop counter \<open>i\<close>: false when \<open>b\<close> is NaN.\<close>

definition js_less :: "nat \<Rightarrow> jsnum \<Rightarrow> bool" where
  "js_less i b = (case b of None \<Rightarrow> False | Some v \<Rightarrow> int i < v)"

definition placeholder :: "nat \<Rightarrow> nat \<Rightarrow> nat \<Rightarrow> Detection" where
  "placeholder index row col =
     \<lparr> det_id = ''obj_'' @ nat_to_string index,
       det_bbox = \<lparr> bbox_x = Fin (50 + real col * 100),
                    bbox_y = Fin (50 + real row * 100),
                    bbox_width = Fin 60,
                    bbox_height = Fin 60 \<rparr>,
       det_confidence = 1.0,
       det_class = Some ''object'',
       det_manual = Some False \<rparr>"

text \<open>The inner loop \<open>for (col = 0; col < cols && index < count; col++)\<close>.\<close>

function cols_loop ::
  "jsnum \<Rightarrow> jsnum \<Rightarrow> nat \<Rightarrow> nat \<Rightarrow> nat \<Rightarrow> Detection list \<Rightarrow> nat \<times> Detection list" where
  "cols_loop count cols row col index detections =
     (if js_less col cols \<and> js_less index count
      then cols_loop count cols row (col + 1) (index + 1) (detections @ [placeholder index row col])
      else (index, detections))"
  by pat_completeness auto
termination
  by (relation "measure (\<lambda>(count, cols, row, col, index, detections). nat (or_zero cols) - col)")
     (auto simp: js_less_def or_zero_def split: option.splits)

text \<open>The outer loop \<open>for (row = 0; row < rows && index < count; row++)\<close>.\<close>

function rows_loop ::
  "jsnum \<Rightarrow> jsnum \<Rightarrow> jsnum \<Rightarrow> nat \<Rightarrow> nat \<Rightarrow> Detection list \<Rightarrow> Detection list" where
  "rows_loop count cols rows row index detections =
     (if js_less row rows \<and> js_less index count
      then (case cols_loop count cols row 0 index detections of
              (index', detections') \<Rightarrow> rows_loop count cols rows (row + 1) index' detections')
      else detections)"
  by pat_completeness auto
termination
  by (relation "measure (\<lambda>(count, cols, rows, row, index, detections). nat (or_zero rows) - row)")
     (auto simp: js_less_def or_zero_def split: option.splits)

definition generatePlaceholderDetections :: "jsnum \<Rightarrow> Detection list" where
  "generatePlaceholderDetections count =
     (let cols = placeholder_cols count;
          rows = placeholder_rows count cols
      in rows_loop count cols rows 0 0 [])"

text \<open>
  \<open>createManualDetection(x, y, size = 40)\<close> with \<open>sz\<close> for \<open>size\<close>, a finite number at its
  only call; \<open>now\<close> is \<open>Date.now()\<close> and \<open>rnd\<close> the text of \<open>Math.random()\<close>.
\<close>

definition createManualDetection :: "jsreal \<Rightarrow> jsreal \<Rightarrow> real \<Rightarrow> nat \<Rightarrow> string \<Rightarrow> Detection" where
  "createManualDetection x y sz now rnd =
     \<lparr> det_id = ''manual_'' @ nat_to_string now @ ''_'' @ rnd,
       det_bbox = \<lparr> bbox_x = js_sub x (sz / 2),
                    bbox_y = js_sub y (sz / 2),
                    bbox_width = Fin sz,
                    bbox_height = Fin sz \<rparr>,
       det_confidence = 1.0,
       det_class = Some ''manual'',
       det_manual = Some True \<rparr>"

text \<open>
  What the remote call does: \<open>fetch\<close> or the decoding of its answer throws, the response
  is not \<open>ok\<close>, or the answer carries the text \<open>data.choices[0].message.content\<close>.
\<close>

datatype api_outcome = FetchThrows | NotOk | Content string

datatype ml_error = ImageMissing | ApiError | RequestFailed

definition is_dec_digit :: "char \<Rightarrow> bool" where
  "is_dec_digit c = is_radix_digit 10 c"

text \<open>\<open>result.match(/\d+/)\<close>: the first maximal run of decimal digits, if there is one.\<close>

definition first_digit_run :: "string \<Rightarrow> string option" where
  "first_digit_run s =
     (let r = dropWhile (\<lambda>c. \<not> is_dec_digit c) s
      in if r = [] then None else Some (takeWhile is_dec_digit r))"

text \<open>
  The body of the \<open>try\<close> block, \<open>count = parseInt(result, 10)\<close>: \<open>Inl\<close> would be an
  exception, and \<open>parseInt\<close> raises none (it returns NaN).
\<close>

definition try_parseInt_10 :: "string \<Rightarrow> unit + jsnum" where
  "try_parseInt_10 result = Inr (parseInt_10 result)"

definition callOpenAIVision :: "api_outcome \<Rightarrow> ml_error + jsnum" where
  "callOpenAIVision api =
     (case api of
        FetchThrows \<Rightarrow> Inl RequestFailed
      | NotOk \<Rightarrow> Inl ApiError
      | Content content \<Rightarrow>
          (let result = trim content;
               count = (case try_parseInt_10 result of
                          Inr c \<Rightarrow> c
                        | Inl _ \<Rightarrow>
                            (case first_digit_run result of
                               Some numbers \<Rightarrow> parseInt_10 numbers
                             | None \<Rightarrow> Some 0))
           in Inr count))"

record MLService =
  ml_isReady :: bool
  ml_apiKey :: string

record detector_env =
  env_fileExists :: bool
  env_api :: api_outcome

datatype alert =
    AlertApiKeyRequired
  | AlertDetectionError
  | AlertNoObjectsDetected
  | AlertProcessingError

text \<open>
  \<open>detectObjects\<close> returns the detections, the alerts it showed and the service. Every
  exception of its \<open>try\<close> block is caught there: it alerts and returns the empty list.
\<close>

definition detectObjects ::
  "MLService \<Rightarrow> detector_env \<Rightarrow> Detection list \<times> alert list \<times> MLService" where
  "detectObjects ml env =
     (let ml' = (if \<not> ml_isReady ml then ml\<lparr> ml_isReady := True \<rparr> else ml)
      in if ml_apiKey ml' = [] then ([], [AlertApiKeyRequired], ml')
         else (case (if \<not> env_fileExists env then Inl ImageMissing
                     else callOpenAIVision (env_api env)) of
                 Inl e \<Rightarrow> ([], [AlertDetectionError], ml')
               | Inr count \<Rightarrow> (generatePlaceholderDetections count, [], ml')))"


section \<open>ReviewScreen\<close>

datatype Mode = Auto | Manual

text \<open>The screen's state hooks, and the alerts shown so far.\<close>

record ReviewState =
  rs_detections :: "Detection list"
  rs_isProcessing :: bool
  rs_imageSize_width :: real
  rs_imageSize_height :: real
  rs_manualCorrections :: nat
  rs_mode :: Mode
  rs_objectType :: string
  rs_showApiKeyInput :: bool
  rs_apiKey :: string
  rs_autoCount :: "nat option"
  rs_manualCountInput :: string
  rs_alerts :: "alert list"

definition initial_ReviewState :: ReviewState where
  "initial_ReviewState =
     \<lparr> rs_detections = [], rs_isProcessing = False,
       rs_imageSize_width = 0, rs_imageSize_height = 0,
       rs_manualCorrections = 0, rs_mode = Manual, rs_objectType = ''objects'',
       rs_showApiKeyInput = False, rs_apiKey = [], rs_autoCount = None,
       rs_manualCountInput = [], rs_alerts = [] \<rparr>"

definition handleManualCountChange :: "string \<Rightarrow> ReviewState \<Rightarrow> ReviewState" where
  "handleManualCountChange text st =
     (let st1 = st\<lparr> rs_manualCountInput := text \<rparr>;
          count = or_zero (parseInt text)
      in if count > 0 \<and> count \<noteq> int (length (rs_detections st))
         then st1\<lparr> rs_detections := [], rs_manualCorrections := 0 \<rparr>
         else st1)"

text \<open>
  \<open>processImageWithAI\<close>, from its start to the end of its \<open>finally\<close> block. The \<open>catch\<close>
  block is not reached: \<open>detectObjects\<close> raises nothing.
\<close>

definition processImageWithAI ::
  "MLService \<Rightarrow> detector_env \<Rightarrow> ReviewState \<Rightarrow> ReviewState \<times> MLService" where
  "processImageWithAI ml env st =
     (let st1 = st\<lparr> rs_isProcessing := True, rs_detections := [] \<rparr>
      in if rs_apiKey st = []
         then (st1\<lparr> rs_showApiKeyInput := True, rs_isProcessing := False \<rparr>, ml)
         else (case detectObjects ml env of
                 (detectedObjects, shown, ml') \<Rightarrow>
                   (let st2 = st1\<lparr> rs_detections := detectedObjects,
                                     rs_autoCount := Some (length detectedObjects),
                                     rs_alerts := rs_alerts st1 @ shown \<rparr>;
                        st3 = (if length detectedObjects = 0
                               then st2\<lparr> rs_alerts := rs_alerts st2 @ [AlertNoObjectsDetected] \<rparr>
                               else st2)
                    in (st3\<lparr> rs_isProcessing := False \<rparr>, ml'))))"

text \<open>
  \<open>handleImagePress\<close> for a tap at \<open>(locationX, locationY)\<close> on a screen of width
  \<open>screenWidth\<close>. Before the image is laid out its size is 0 by 0 and \<open>scaleY\<close> is the NaN
  \<open>0 / 0\<close>.
\<close>

definition handleImagePress ::
  "real \<Rightarrow> real \<Rightarrow> real \<Rightarrow> nat \<Rightarrow> string \<Rightarrow> ReviewState \<Rightarrow> ReviewState" where
  "handleImagePress screenWidth locationX locationY now rnd st =
     (if rs_mode st = Manual \<and> \<not> rs_isProcessing st then
        (let scaleX = js_div (rs_imageSize_width st) screenWidth;
             scaleY = js_div (rs_imageSize_height st) (rs_imageSize_height st);
             newDetection = createManualDetection (js_mul locationX scaleX)
                              (js_mul locationY scaleY) 40 now rnd
         in st\<lparr> rs_detections := rs_detections st @ [newDetection],
                rs_manualCorrections := rs_manualCorrections st + 1,
                rs_manualCountInput := nat_to_string (length (rs_detections st) + 1) \<rparr>)
      else st)"

definition removeDetection :: "string \<Rightarrow> ReviewState \<Rightarrow> ReviewState" where
  "removeDetection ident st =
     (let newDetections = filter (\<lambda>d. det_id d \<noteq> ident) (rs_detections st);
          st1 = st\<lparr> rs_detections := newDetections,
                    rs_manualCorrections := rs_manualCorrections st + 1 \<rparr>
      in if rs_mode st = Manual
         then st1\<lparr> rs_manualCountInput := nat_to_string (length newDetections) \<rparr>
         else st1)"

definition clearAll :: "ReviewState \<Rightarrow> ReviewState" where
  "clearAll st =
     st\<lparr> rs_detections := [], rs_manualCorrections := 0, rs_autoCount := None,
         rs_manualCountInput := [] \<rparr>"

definition switchToManual :: "ReviewState \<Rightarrow> ReviewState" where
  "switchToManual st = clearAll (st\<lparr> rs_mode := Manual \<rparr>)"

definition switchToAuto :: "MLService \<Rightarrow> detector_env \<Rightarrow> ReviewState \<Rightarrow> ReviewState \<times> MLService" where
  "switchToAuto ml env st = processImageWithAI ml env (clearAll (st\<lparr> rs_mode := Auto \<rparr>))"


section \<open>The total-count invariant and sequences of repository mutations\<close>

definition total_ok :: "Session \<Rightarrow> bool" where
  "total_ok s = (sess_totalCount s = sum_list (map img_count (sess_images s)))"

definition store_inv :: "storage \<Rightarrow> bool" where
  "store_inv st = list_all total_ok (getAllSessions st)"

text \<open>
  The mutations of the stored collection that the application performs. A mutation that
  raises writes nothing: the store stays as it was.
\<close>

datatype mutation =
    CreateSession string "string option" nat string
  | AddImageToSession string string int "Detection list" nat string
  | UpdateImageCount string string int int
  | DeleteImage "Session option" string
  | DeleteSession string

definition keep_on_error :: "storage \<Rightarrow> error + storage \<Rightarrow> storage" where
  "keep_on_error st r = (case r of Inl e \<Rightarrow> st | Inr st' \<Rightarrow> st')"

fun apply_mutation :: "mutation \<Rightarrow> storage \<Rightarrow> storage" where
  "apply_mutation (CreateSession name objectType now date) st =
     snd (createSession name objectType now date st)"
| "apply_mutation (AddImageToSession sessionId imagePath count detections now date) st =
     keep_on_error st (addImageToSession sessionId imagePath count detections now date st)"
| "apply_mutation (UpdateImageCount sessionId imageId newCount corrections) st =
     keep_on_error st (updateImageCount sessionId imageId newCount corrections st)"
| "apply_mutation (DeleteImage session imageId) st =
     keep_on_error st (deleteImage session imageId st)"
| "apply_mutation (DeleteSession sessionId) st = deleteSession sessionId st"

definition run_mutations :: "mutation list \<Rightarrow> storage \<Rightarrow> storage" where
  "run_mutations ms st = foldl (\<lambda>s m. apply_mutation m s) st ms"

definition example_mutations :: "mutation list" where
  "example_mutations =
     [CreateSession ''Widgets'' None 1 ''d1'',
      AddImageToSession ''session_1'' ''a.jpg'' 5 [] 2 ''d2'',
      AddImageToSession ''session_1'' ''b.jpg'' 3 [] 3 ''d3'',
      UpdateImageCount ''session_1'' ''img_2'' 7 1,
      CreateSession ''Bolts'' (Some ''bolts'') 4 ''d4'',
      AddImageToSession ''session_4'' ''c.jpg'' 2 [] 5 ''d5'',
      DeleteImage (Some \<lparr> sess_id = ''session_1'', sess_name = ''Widgets'', sess_createdAt = ''d1'',
                          sess_images = [\<lparr> img_id = ''img_2'', img_path = ''a.jpg'', img_count = 7,
                                          img_timestamp = ''d2'', img_corrections = 1,
                                          img_detections = [] \<rparr>,
                                        \<lparr> img_id = ''img_3'', img_path = ''b.jpg'', img_count = 3,
                                          img_timestamp = ''d3'', img_corrections = 0,
                                          img_detections = [] \<rparr>],
                          sess_totalCount = 10, sess_objectType = None \<rparr>) ''img_3'']"

text \<open>The cell of placeholder \<open>i\<close> in a row-major grid of \<open>k\<close> columns.\<close>

definition grid_cell :: "nat \<Rightarrow> nat \<Rightarrow> Detection" where
  "grid_cell k i = placeholder i (i div k) (i mod k)"

section \<open>Example values\<close>

definition stale_session :: Session where
  "stale_session = \<lparr> sess_id = ''session_9'', sess_name = ''Gone'', sess_createdAt = ''d9'',
                      sess_images = [], sess_totalCount = 0, sess_objectType = None \<rparr>"

definition image_a :: ImageCount where
  "image_a = \<lparr> img_id = ''img_2'', img_path = ''a.jpg'', img_count = 5,
                img_timestamp = ''2024-05-01T10:00:00.000Z'',
                img_corrections = 0, img_detections = [] \<rparr>"

definition image_b :: ImageCount where
  "image_b = \<lparr> img_id = ''img_3'', img_path = ''b.jpg'', img_count = 3,
                img_timestamp = ''2024-05-01T10:05:30.000Z'',
                img_corrections = 1, img_detections = [] \<rparr>"

definition widgets :: Session where
  "widgets = \<lparr> sess_id = ''session_1'', sess_name = ''Widgets'', sess_createdAt = ''d1'',
                sess_images = [image_a, image_b], sess_totalCount = 8, sess_objectType = None \<rparr>"

definition bolts :: Session where
  "bolts = \<lparr> sess_id = ''session_4'', sess_name = ''Bolts'', sess_createdAt = ''d4'',
              sess_images = [], sess_totalCount = 0, sess_objectType = Some ''bolts'' \<rparr>"

definition example_store :: storage where
  "example_store = Some [bolts, widgets]"

text \<open>A hand-edited copy of \<open>widgets\<close> whose total does not match its images.\<close>

definition widgets_edited :: Session where
  "widgets_edited = widgets\<lparr> sess_images := [image_a], sess_totalCount := 99 \<rparr>"

section \<open>The count as the specification words it\<close>

text \<open>
  The specification's extraction of the count from the detector's text: the direct parse
  as an integer; when that fails, the first run of digits; when there are no digits, 0.
\<close>

definition spec_extractCount :: "string \<Rightarrow> jsnum" where
  "spec_extractCount response =
     (case parseInt_10 response of
        Some n \<Rightarrow> Some n
      | None \<Rightarrow>
          (case first_digit_run response of
             Some numbers \<Rightarrow> parseInt_10 numbers
           | None \<Rightarrow> Some 0))"

section \<open>Failing detector requests and example review states\<close>

text \<open>
  The request made by \<open>detectObjects\<close> fails when the service has no key, the image file
  is missing, or the remote call throws or answers with an error status.
\<close>

definition detector_fails :: "MLService \<Rightarrow> detector_env \<Rightarrow> bool" where
  "detector_fails ml env =
     (ml_apiKey ml = [] \<or> \<not> env_fileExists env \<or> env_api env = FetchThrows \<or> env_api env = NotOk)"

definition ml_with_key :: MLService where
  "ml_with_key = \<lparr> ml_isReady = True, ml_apiKey = ''sk-1'' \<rparr>"

definition env_network_down :: detector_env where
  "env_network_down = \<lparr> env_fileExists = True, env_api = FetchThrows \<rparr>"

definition tap_1 :: Detection where
  "tap_1 = createManualDetection (Fin 100) (Fin 200) 40 1 ''0.25''"

definition tap_2 :: Detection where
  "tap_2 = createManualDetection (Fin 120) (Fin 80) 40 2 ''0.5''"

text \<open>Automatic mode after a count of two, before a recount.\<close>

definition review_auto :: ReviewState where
  "review_auto = initial_ReviewState\<lparr> rs_mode := Auto, rs_apiKey := ''sk-1'',
                   rs_detections := [placeholder 0 0 0, placeholder 1 0 1],
                   rs_autoCount := Some 2 \<rparr>"

text \<open>The screen as it opens, once the image is laid out 390 wide and 520 high.\<close>

definition review_laid_out :: ReviewState where
  "review_laid_out = initial_ReviewState\<lparr> rs_imageSize_width := 390, rs_imageSize_height := 520 \<rparr>"

text \<open>Manual mode after two taps, on a screen 390 wide showing the image 520 high.\<close>

definition review_two_taps :: ReviewState where
  "review_two_taps = initial_ReviewState\<lparr> rs_detections := [tap_1, tap_2],
                       rs_imageSize_width := 390, rs_imageSize_height := 520,
                       rs_manualCorrections := 2, rs_manualCountInput := ''2'' \<rparr>"


section \<open>Properties of the StorageService\<close>

declare nat_to_string.simps [simp del]

lemma getAllSessions_Some [simp]: "getAllSessions (Some xs) = xs"
  by (simp add: getAllSessions_def)

lemma getAllSessions_None [simp]: "getAllSessions None = []"
  by (simp add: getAllSessions_def)

lemma sum_counts_from: "foldl (\<lambda>sum img. sum + img_count img) a imgs = a + sum_list (map img_count imgs)"
  by (induction imgs arbitrary: a) auto

lemma sum_counts_sum_list: "sum_counts imgs = sum_list (map img_count imgs)"
  by (simp add: sum_counts_def sum_counts_from)

lemma findIndex_bound: "findIndex p xs < int (length xs)"
  by (induction xs) (auto simp: Let_def)

lemma findIndex_lower: "- 1 \<le> findIndex p xs"
  by (induction xs) (auto simp: Let_def)

lemma list_all_update: "list_all P xs \<Longrightarrow> P v \<Longrightarrow> list_all P (xs[i := v])"
  by (induction xs arbitrary: i) (auto split: nat.splits)

lemma updateSession_inv:
  assumes "store_inv st" "total_ok s" "updateSession s st = Inr st'"
  shows "store_inv st'"
  using assms by (auto simp: updateSession_def store_inv_def Let_def list_all_update split: if_splits)

lemma updateSession_total: "\<exists>st'. updateSession s st = Inr st'"
  by (simp add: updateSession_def Let_def)

lemma addImage_inv:
  assumes "store_inv st" "addImageToSession sid p c ds now date st = Inr st'"
  shows "store_inv st'"
  using assms
  by (auto simp: addImageToSession_def Let_def total_ok_def sum_counts_sum_list
      split: option.splits intro!: updateSession_inv[where st=st])

lemma updateImageCount_inv:
  assumes "store_inv st" "updateImageCount sid iid c k st = Inr st'"
  shows "store_inv st'"
  using assms
  by (auto simp: updateImageCount_def Let_def total_ok_def sum_counts_sum_list
      split: option.splits if_splits intro!: updateSession_inv[where st=st])

lemma deleteImage_inv:
  assumes "store_inv st" "deleteImage s iid st = Inr st'"
  shows "store_inv st'"
  using assms
  by (auto simp: deleteImage_def Let_def total_ok_def sum_counts_sum_list
      split: option.splits if_splits intro!: updateSession_inv[where st=st])

lemma createSession_inv:
  assumes "store_inv st"
  shows "store_inv (snd (createSession n ot now date st))"
  using assms by (simp add: createSession_def store_inv_def total_ok_def Let_def)

lemma deleteSession_inv:
  assumes "store_inv st"
  shows "store_inv (deleteSession sid st)"
  using assms by (simp add: deleteSession_def store_inv_def getAllSessions_def list_all_iff)

lemma apply_mutation_inv: "store_inv st \<Longrightarrow> store_inv (apply_mutation m st)"
proof (cases m)
  case (CreateSession n ot now date)
  assume "store_inv st"
  then show ?thesis unfolding CreateSession by (simp add: createSession_inv)
next
  case (AddImageToSession sid p c ds now date)
  assume "store_inv st"
  then show ?thesis unfolding AddImageToSession
    by (auto simp: keep_on_error_def split: sum.splits dest: addImage_inv)
next
  case (UpdateImageCount sid iid c k)
  assume "store_inv st"
  then show ?thesis unfolding UpdateImageCount
    by (auto simp: keep_on_error_def split: sum.splits dest: updateImageCount_inv)
next
  case (DeleteImage s iid)
  assume "store_inv st"
  then show ?thesis unfolding DeleteImage
    by (auto simp: keep_on_error_def split: sum.splits dest: deleteImage_inv)
next
  case (DeleteSession sid)
  assume "store_inv st"
  then show ?thesis unfolding DeleteSession by (simp add: deleteSession_inv)
qed


section \<open>Properties of placeholder synthesis\<close>

declare cols_loop.simps [simp del] rows_loop.simps [simp del]

lemma js_less_nat: "js_less i (Some (int n)) = (i < n)"
  by (simp add: js_less_def)

lemma js_less_NaN: "js_less i None = False"
  by (simp add: js_less_def)

lemma map_upt_shift: "map f [0..<Suc m] = f 0 # map (\<lambda>j. f (Suc j)) [0..<m]"
proof -
  have "[0..<Suc m] = 0 # map Suc [0..<m]"
    by (simp add: upt_conv_Cons map_Suc_upt del: upt_Suc)
  then show ?thesis by (simp add: comp_def del: upt_Suc)
qed

lemma cols_loop_run:
  "cols_loop (Some (int n)) (Some (int k)) row col index dets =
     (index + min (k - col) (n - index),
      dets @ map (\<lambda>j. placeholder (index + j) row (col + j)) [0..<min (k - col) (n - index)])"
proof (induction "k - col" arbitrary: col index dets)
  case 0
  then show ?case by (subst cols_loop.simps) (simp add: js_less_nat)
next
  case (Suc d)
  show ?case
  proof (cases "index < n")
    case False
    then show ?thesis by (subst cols_loop.simps) (simp add: js_less_nat)
  next
    case True
    from Suc.hyps(2) have lt: "col < k" and d: "d = k - Suc col" by simp_all
    from True lt obtain m where m: "min (k - col) (n - index) = Suc m"
      by (cases "min (k - col) (n - index)") auto
    then have m': "min (k - Suc col) (n - Suc index) = m" by arith
    have IH: "cols_loop (Some (int n)) (Some (int k)) row (Suc col) (Suc index)
                (dets @ [placeholder index row col]) =
              (Suc index + m,
               (dets @ [placeholder index row col]) @
                 map (\<lambda>j. placeholder (Suc index + j) row (Suc col + j)) [0..<m])"
      using Suc.hyps(1)[OF d, of "Suc index" "dets @ [placeholder index row col]"] m' by simp
    show ?thesis
      apply (subst cols_loop.simps)
      using True lt
      by (simp add: js_less_nat IH m map_upt_shift del: upt_Suc)
  qed
qed

lemma rows_loop_run:
  assumes "0 < k"
  shows "rows_loop (Some (int n)) (Some (int k)) (Some (int R)) row (min n (row * k)) dets =
     dets @ map (grid_cell k) [min n (row * k)..<min n (R * k)]"
proof (induction "R - row" arbitrary: row dets)
  case 0
  then have le: "R \<le> row" by simp
  then have "R * k \<le> row * k" by (rule mult_le_mono1)
  then have "min n (R * k) \<le> min n (row * k)" by (rule min.mono[OF order_refl])
  with le show ?case by (subst rows_loop.simps) (simp add: js_less_nat)
next
  case (Suc d)
  from Suc.hyps(2) have lt: "row < R" and d: "d = R - (row + 1)" by simp_all
  show ?case
  proof (cases "row * k < n")
    case False
    then show ?thesis by (subst rows_loop.simps) (simp add: js_less_nat)
  next
    case True
    let ?m = "min k (n - row * k)"
    have next_idx: "row * k + ?m = min n ((row + 1) * k)"
    proof -
      have "(row + 1) * k = row * k + k" by simp
      with True show ?thesis by arith
    qed
    have cells: "map (\<lambda>j. placeholder (row * k + j) row (0 + j)) [0..<?m] =
                 map (grid_cell k) [row * k..<row * k + ?m]"
    proof -
      have "[row * k..<row * k + ?m] = map (\<lambda>j. j + row * k) [0..<?m]"
        unfolding map_add_upt by (simp add: add.commute)
      then have "map (grid_cell k) [row * k..<row * k + ?m] = map (\<lambda>j. grid_cell k (row * k + j)) [0..<?m]"
        by (simp add: comp_def add.commute)
      also have "\<dots> = map (\<lambda>j. placeholder (row * k + j) row (0 + j)) [0..<?m]"
        using assms by (intro map_cong) (auto simp: grid_cell_def)
      finally show ?thesis by simp
    qed
    have "(row + 1) * k \<le> R * k" using lt by (intro mult_le_mono1) simp
    then have le: "min n ((row + 1) * k) \<le> min n (R * k)" by (rule min.mono[OF order_refl])
    have low: "row * k \<le> min n ((row + 1) * k)" using True by simp
    have range_split: "[row * k..<min n (R * k)] =
                 [row * k..<min n ((row + 1) * k)] @ [min n ((row + 1) * k)..<min n (R * k)]"
      using upt_add_eq_append[OF low, of "min n (R * k) - min n ((row + 1) * k)"] le by simp
    have idx: "min n (row * k) = row * k" using True by simp
    have inner: "cols_loop (Some (int n)) (Some (int k)) row 0 (row * k) dets =
                 (min n ((row + 1) * k), dets @ map (grid_cell k) [row * k..<min n ((row + 1) * k)])"
      using cells next_idx by (simp add: cols_loop_run del: upt_Suc)
    have "rows_loop (Some (int n)) (Some (int k)) (Some (int R)) row (row * k) dets =
          rows_loop (Some (int n)) (Some (int k)) (Some (int R)) (row + 1) (min n ((row + 1) * k))
            (dets @ map (grid_cell k) [row * k..<min n ((row + 1) * k)])"
      using True lt by (subst rows_loop.simps) (simp add: js_less_nat inner del: upt_Suc)
    also have "\<dots> = (dets @ map (grid_cell k) [row * k..<min n ((row + 1) * k)]) @
                      map (grid_cell k) [min n ((row + 1) * k)..<min n (R * k)]"
      by (rule Suc.hyps(1)[OF d])
    also have "\<dots> = dets @ map (grid_cell k) [row * k..<min n (R * k)]"
      by (simp add: range_split del: upt_Suc)
    finally show ?thesis unfolding idx .
  qed
qed


lemma ceiling_sqrt_eq:
  fixes n k :: nat
  assumes up: "n \<le> k * k" and low: "(k - 1) * (k - 1) < n"
  shows "\<lceil>sqrt (real n)\<rceil> = int k"
proof (rule ceiling_unique)
  have "real n \<le> real (k * k)" using up by (simp only: of_nat_le_iff)
  then have "real n \<le> (real k)\<^sup>2" by (simp add: power2_eq_square)
  then show "sqrt (real n) \<le> real_of_int (int k)" by (simp add: real_le_lsqrt)
next
  from low up have k: "1 \<le> k" by (cases k) auto
  then have pred: "real (k - 1) = real k - 1" by (simp add: of_nat_diff)
  have "real ((k - 1) * (k - 1)) < real n" using low by (simp only: of_nat_less_iff)
  then have "(real (k - 1))\<^sup>2 < real n" by (simp add: power2_eq_square)
  then have "real (k - 1) < sqrt (real n)" by (rule real_less_rsqrt)
  then show "real_of_int (int k) - 1 < sqrt (real n)" using pred by simp
qed

lemma ceiling_sqrt_pos:
  fixes n :: nat
  assumes "0 < n"
  shows "0 < \<lceil>sqrt (real n)\<rceil>"
  using assms by simp

lemma ceiling_div_covers:
  fixes n k :: nat
  assumes "0 < k"
  shows "n \<le> nat \<lceil>real n / real k\<rceil> * k"
proof -
  have "0 \<le> real n / real k" by simp
  then have nonneg: "0 \<le> \<lceil>real n / real k\<rceil>" by (simp only: zero_le_ceiling)
  have "real n / real k \<le> real_of_int \<lceil>real n / real k\<rceil>" by (rule le_of_int_ceiling)
  also have "\<dots> = real (nat \<lceil>real n / real k\<rceil>)" using nonneg by simp
  finally have quot: "real n / real k \<le> real (nat \<lceil>real n / real k\<rceil>)" .
  have kpos: "0 < real k" using assms by simp
  have "real n \<le> real (nat \<lceil>real n / real k\<rceil>) * real k"
    using quot by (simp only: pos_divide_le_eq[OF kpos])
  then have "real n \<le> real (nat \<lceil>real n / real k\<rceil> * k)" by simp
  then show ?thesis by (simp only: of_nat_le_iff)
qed

section \<open>The repository: totals, updates, creation, export\<close>

lemma store_inv_run: "store_inv st \<Longrightarrow> store_inv (run_mutations ms st)"
  unfolding run_mutations_def
  by (induction ms arbitrary: st) (simp_all add: apply_mutation_inv)

text \<open>
  C1. Every session of the stored collection has \<open>totalCount\<close> equal to the sum of the
  counts of its images after any sequence of repository mutations (\<open>createSession\<close>,
  \<open>addImageToSession\<close>, \<open>updateImageCount\<close>, the removal of an image, \<open>deleteSession\<close>)
  applied to a collection where this held; the empty collection is one.
\<close>

theorem totalCount_invariant:
  assumes "store_inv st"
  shows "\<forall>s \<in> set (getAllSessions (run_mutations ms st)).
           sess_totalCount s = sum_list (map img_count (sess_images s))"
  using store_inv_run[OF assms, of ms] by (simp add: store_inv_def list_all_iff total_ok_def)

theorem totalCount_invariant_witness:
  "store_inv None \<and>
   list_all (\<lambda>s. sess_totalCount s = sum_list (map img_count (sess_images s)))
     (getAllSessions (run_mutations example_mutations None)) \<and>
   map (\<lambda>s. (sess_id s, map img_count (sess_images s), sess_totalCount s))
     (getAllSessions (run_mutations example_mutations None)) =
     [(''session_4'', [2], 2), (''session_1'', [7], 7)]"
proof -
  have h: "store_inv None" by (simp add: store_inv_def)
  have "map (\<lambda>s. (sess_id s, map img_count (sess_images s), sess_totalCount s))
     (getAllSessions (run_mutations example_mutations None)) =
     [(''session_4'', [2], 2), (''session_1'', [7], 7)]"
    by code_simp
  with h totalCount_invariant [OF h, of example_mutations] show ?thesis
    by (simp add: list_all_iff)
qed

lemma findIndex_neg_iff: "findIndex p xs < 0 \<longleftrightarrow> find p xs = None"
  by (induction xs) (auto simp: Let_def)

lemma findIndex_nonneg_iff: "0 \<le> findIndex p xs \<longleftrightarrow> find p xs \<noteq> None"
  by (simp add: not_less[symmetric] findIndex_neg_iff)

lemma findIndex_first:
  assumes "0 \<le> findIndex p xs"
  shows "nat (findIndex p xs) < length xs \<and> p (xs ! nat (findIndex p xs)) \<and>
         (\<forall>j < nat (findIndex p xs). \<not> p (xs ! j))"
  using assms
proof (induction xs)
  case Nil
  then show ?case by simp
next
  case (Cons a as)
  show ?case
  proof (cases "p a")
    case True
    then show ?thesis by simp
  next
    case False
    with Cons.prems have nn: "0 \<le> findIndex p as" by (simp add: Let_def split: if_splits)
    then have eq: "nat (findIndex p (a # as)) = Suc (nat (findIndex p as))"
      using False by (simp add: Let_def nat_add_distrib)
    from Cons.IH[OF nn] False show ?thesis
      unfolding eq by (auto simp: nth_Cons split: nat.splits)
  qed
qed

lemma find_update_first:
  assumes "0 \<le> findIndex p xs" "p v"
  shows "find p (xs[nat (findIndex p xs) := v]) = Some v"
  using assms
proof (induction xs)
  case Nil
  then show ?case by simp
next
  case (Cons a as)
  show ?case
  proof (cases "p a")
    case True
    then show ?thesis using Cons.prems by simp
  next
    case False
    with Cons.prems have nn: "0 \<le> findIndex p as" by (simp add: Let_def split: if_splits)
    then have eq: "nat (findIndex p (a # as)) = Suc (nat (findIndex p as))"
      using False by (simp add: Let_def nat_add_distrib)
    from Cons.IH[OF nn Cons.prems(2)] False show ?thesis unfolding eq by simp
  qed
qed

text \<open>
  C2, as claimed: \<open>updateSession\<close> fails with a not-found error when no stored session has
  the given id. It does not: on the empty store it returns normally and writes nothing.
\<close>

theorem updateSession_missing_counterexample:
  "getSession (sess_id stale_session) None = None \<and>
   updateSession stale_session None \<noteq> Inl SessionNotFound \<and>
   updateSession stale_session None = Inr None"
  by (simp add: updateSession_def stale_session_def getSession_def)

text \<open>
  C2, amended. When no stored session has the given id, \<open>updateSession\<close> returns normally
  and leaves the store as it is. When one has, the first stored session with that id is
  replaced by the given value as it is, so that reading the id back yields the given value,
  \<open>totalCount\<close> included.
\<close>

theorem updateSession_replaces_or_ignores:
  "(getSession (sess_id s) st = None \<longrightarrow> updateSession s st = Inr st) \<and>
   (getSession (sess_id s) st \<noteq> None \<longrightarrow>
      (\<exists>i < length (getAllSessions st).
          sess_id (getAllSessions st ! i) = sess_id s \<and>
          (\<forall>j < i. sess_id (getAllSessions st ! j) \<noteq> sess_id s) \<and>
          updateSession s st = Inr (Some ((getAllSessions st)[i := s]))) \<and>
      (\<exists>st'. updateSession s st = Inr st' \<and> getSession (sess_id s) st' = Some s))"
proof (intro conjI impI)
  assume "getSession (sess_id s) st = None"
  then have "findIndex (\<lambda>t. sess_id t = sess_id s) (getAllSessions st) < 0"
    by (simp add: getSession_def findIndex_neg_iff)
  then show "updateSession s st = Inr st" by (simp add: updateSession_def Let_def)
next
  assume "getSession (sess_id s) st \<noteq> None"
  then have nn: "0 \<le> findIndex (\<lambda>t. sess_id t = sess_id s) (getAllSessions st)"
    by (simp add: getSession_def findIndex_nonneg_iff)
  let ?i = "nat (findIndex (\<lambda>t. sess_id t = sess_id s) (getAllSessions st))"
  have upd: "updateSession s st = Inr (Some ((getAllSessions st)[?i := s]))"
    using nn by (simp add: updateSession_def Let_def)
  from findIndex_first[OF nn] upd
  show "\<exists>i < length (getAllSessions st).
          sess_id (getAllSessions st ! i) = sess_id s \<and>
          (\<forall>j < i. sess_id (getAllSessions st ! j) \<noteq> sess_id s) \<and>
          updateSession s st = Inr (Some ((getAllSessions st)[i := s]))"
    by (intro exI[of _ ?i]) simp
  have "getSession (sess_id s) (Some ((getAllSessions st)[?i := s])) = Some s"
    using find_update_first[OF nn, of s] by (simp add: getSession_def)
  with upd show "\<exists>st'. updateSession s st = Inr st' \<and> getSession (sess_id s) st' = Some s"
    by simp
qed


theorem updateSession_replaces_or_ignores_witness:
  "getSession (sess_id stale_session) example_store = None \<and>
   updateSession stale_session example_store = Inr example_store \<and>
   getSession (sess_id widgets_edited) example_store \<noteq> None \<and>
   updateSession widgets_edited example_store = Inr (Some [bolts, widgets_edited]) \<and>
   sess_totalCount widgets_edited = 99 \<and>
   sum_list (map img_count (sess_images widgets_edited)) = 5"
proof -
  have a: "getSession (sess_id stale_session) example_store = None"
    by (simp add: getSession_def stale_session_def example_store_def bolts_def widgets_def)
  have b: "getSession (sess_id widgets_edited) example_store \<noteq> None"
    by (simp add: getSession_def widgets_edited_def example_store_def bolts_def widgets_def)
  have c: "updateSession widgets_edited example_store = Inr (Some [bolts, widgets_edited])"
    by (simp add: updateSession_def widgets_edited_def example_store_def bolts_def widgets_def)
  have d: "sess_totalCount widgets_edited = 99 \<and>
           sum_list (map img_count (sess_images widgets_edited)) = 5"
    by (simp add: widgets_edited_def widgets_def image_a_def)
  from updateSession_replaces_or_ignores [of stale_session example_store]
       updateSession_replaces_or_ignores [of widgets_edited example_store] a b c d
  show ?thesis by simp
qed

lemma createSession_result:
  "createSession name objectType now date st =
     (\<lparr> sess_id = ''session_'' @ nat_to_string now, sess_name = name, sess_createdAt = date,
        sess_images = [], sess_totalCount = 0, sess_objectType = objectType \<rparr>,
      Some (\<lparr> sess_id = ''session_'' @ nat_to_string now, sess_name = name, sess_createdAt = date,
              sess_images = [], sess_totalCount = 0, sess_objectType = objectType \<rparr>
            # getAllSessions st))"
  unfolding createSession_def Let_def by (rule refl)

lemma screen_createSession_blank:
  "trim name = [] \<Longrightarrow> screen_createSession name ot now date st = (None, st)"
  unfolding screen_createSession_def by (simp only: simp_thms if_True)

lemma screen_createSession_named:
  "trim name \<noteq> [] \<Longrightarrow>
   screen_createSession name ot now date st =
     (Some (fst (createSession (trim name) (if trim ot = [] then None else Some (trim ot)) now date st)),
      snd (createSession (trim name) (if trim ot = [] then None else Some (trim ot)) now date st))"
  unfolding screen_createSession_def by (simp only: simp_thms if_False split_beta Let_def)


text \<open>
  C3, as claimed: \<open>createSession\<close> fails with a validation error for a name that is empty
  after trimming and leaves the stored collection unchanged. It does not: the service
  stores a session named by the empty string, or by three spaces.
\<close>

theorem createSession_blank_counterexample:
  "trim [] = [] \<and> trim ''   '' = [] \<and>
   snd (createSession [] None 1 ''d1'' None) \<noteq> None \<and>
   getAllSessions (snd (createSession ''   '' None 1 ''d1'' None)) =
     [\<lparr> sess_id = ''session_1'', sess_name = ''   '', sess_createdAt = ''d1'',
        sess_images = [], sess_totalCount = 0, sess_objectType = None \<rparr>]"
  by (simp add: trim_def is_js_whitespace_def createSession_def digit_char_def nat_to_string.simps Let_def)

text \<open>
  C3, amended. The service's \<open>createSession\<close> validates nothing: for every name it puts the
  new session, with no images and a total of 0, at the front of the collection. The check
  is in the New Session screen: for a name that is empty after trimming it returns
  without calling the service and the collection is unchanged; for any other name it
  creates the session under the trimmed name.
\<close>

theorem createSession_validation:
  "(\<exists>s. createSession name objectType now date st = (s, Some (s # getAllSessions st)) \<and>
        sess_name s = name \<and> sess_images s = [] \<and> sess_totalCount s = 0) \<and>
   (trim name = [] \<longrightarrow> screen_createSession name ot now date st = (None, st)) \<and>
   (trim name \<noteq> [] \<longrightarrow>
      (\<exists>s. screen_createSession name ot now date st = (Some s, Some (s # getAllSessions st)) \<and>
           sess_name s = trim name \<and> sess_images s = [] \<and> sess_totalCount s = 0))"
proof (intro conjI impI)
  show "\<exists>s. createSession name objectType now date st = (s, Some (s # getAllSessions st)) \<and>
        sess_name s = name \<and> sess_images s = [] \<and> sess_totalCount s = 0"
    unfolding createSession_result by (rule exI, intro conjI, rule refl) simp_all
next
  assume "trim name = []"
  then show "screen_createSession name ot now date st = (None, st)"
    by (rule screen_createSession_blank)
next
  assume nb: "trim name \<noteq> []"
  let ?s = "\<lparr> sess_id = ''session_'' @ nat_to_string now, sess_name = trim name,
              sess_createdAt = date, sess_images = [], sess_totalCount = 0,
              sess_objectType = (if trim ot = [] then None else Some (trim ot)) \<rparr>"
  have run: "screen_createSession name ot now date st = (Some ?s, Some (?s # getAllSessions st))"
    using screen_createSession_named[OF nb, of ot now date st]
    unfolding createSession_result fst_conv snd_conv .
  have fields: "sess_name ?s = trim name \<and> sess_images ?s = [] \<and> sess_totalCount ?s = 0"
    by simp
  from run fields
  show "\<exists>s. screen_createSession name ot now date st = (Some s, Some (s # getAllSessions st)) \<and>
           sess_name s = trim name \<and> sess_images s = [] \<and> sess_totalCount s = 0"
    by (intro exI[of _ ?s]) (simp only: simp_thms)
qed

theorem createSession_validation_witness:
  "trim ''   '' = [] \<and>
   screen_createSession ''   '' ''nuts'' 1 ''d1'' example_store = (None, example_store) \<and>
   trim '' Widgets '' \<noteq> [] \<and>
   screen_createSession '' Widgets '' [] 7 ''d7'' None =
     (Some \<lparr> sess_id = ''session_7'', sess_name = ''Widgets'', sess_createdAt = ''d7'',
             sess_images = [], sess_totalCount = 0, sess_objectType = None \<rparr>,
      Some [\<lparr> sess_id = ''session_7'', sess_name = ''Widgets'', sess_createdAt = ''d7'',
             sess_images = [], sess_totalCount = 0, sess_objectType = None \<rparr>])"
proof -
  have a: "trim ''   '' = []" by (simp add: trim_def is_js_whitespace_def)
  have b: "trim '' Widgets '' = ''Widgets''" by (simp add: trim_def is_js_whitespace_def)
  have nb: "trim '' Widgets '' \<noteq> []" unfolding b by simp
  have t0: "trim [] = []" by (simp add: trim_def)
  note blank = createSession_validation [of "''   ''" None 1 "''d1''" example_store "''nuts''"]
  have c: "screen_createSession ''   '' ''nuts'' 1 ''d1'' example_store = (None, example_store)"
    by (rule mp[OF conjunct1[OF conjunct2[OF blank]] a])
  have d: "screen_createSession '' Widgets '' [] 7 ''d7'' None =
     (Some \<lparr> sess_id = ''session_7'', sess_name = ''Widgets'', sess_createdAt = ''d7'',
             sess_images = [], sess_totalCount = 0, sess_objectType = None \<rparr>,
      Some [\<lparr> sess_id = ''session_7'', sess_name = ''Widgets'', sess_createdAt = ''d7'',
             sess_images = [], sess_totalCount = 0, sess_objectType = None \<rparr>])"
    by (simp add: screen_createSession_def createSession_def b t0 digit_char_def nat_to_string.simps Let_def)
  show ?thesis using a c nb d by (simp only: simp_thms)
qed

lemma csv_rows_foldl: "foldl (\<lambda>csv img. csv @ csv_row img) a imgs = a @ concat (map csv_row imgs)"
  by (induction imgs arbitrary: a) simp_all

lemma csv_rows_lines:
  "concat (map csv_row imgs) =
   concat (map (\<lambda>line. line @ [NL])
     (map (\<lambda>img. img_id img @ '','' @ int_to_string (img_count img) @ '',''
                   @ img_timestamp img @ '','' @ int_to_string (img_corrections img)) imgs))"
  by (induction imgs) (simp_all add: csv_row_def)

lemma export_found:
  assumes "getSession sessionId st = Some s"
  shows "exportSessionAsCSV sessionId st =
    Inr ((''Image ID,Count,Timestamp,Corrections'' @ [NL]) @ concat (map csv_row (sess_images s))
          @ [NL] @ ''Total Count:,'' @ int_to_string (sess_totalCount s) @ [NL])"
  unfolding exportSessionAsCSV_def assms Let_def csv_rows_foldl by simp


text \<open>
  C7. \<open>exportSessionAsCSV\<close> raises \<open>Session not found\<close> for an id that is not stored. For a
  stored session its text is, line by line: the header \<open>Image ID,Count,Timestamp,Corrections\<close>,
  one line per image in the order of the session with id, count, timestamp and corrections
  separated by commas, an empty line, and \<open>Total Count:,\<close> followed by the session's
  \<open>totalCount\<close>; every line ends with a newline.
\<close>

theorem exportSessionAsCSV_format:
  "exportSessionAsCSV sessionId st =
     (case getSession sessionId st of
        None \<Rightarrow> Inl SessionNotFound
      | Some s \<Rightarrow>
          Inr (concat (map (\<lambda>line. line @ [NL])
                 (''Image ID,Count,Timestamp,Corrections''
                  # map (\<lambda>img. img_id img @ '','' @ int_to_string (img_count img) @ '',''
                                @ img_timestamp img @ '','' @ int_to_string (img_corrections img))
                      (sess_images s)
                  @ [[], ''Total Count:,'' @ int_to_string (sess_totalCount s)]))))"
proof (cases "getSession sessionId st")
  case None
  then show ?thesis by (simp add: exportSessionAsCSV_def)
next
  case (Some s)
  show ?thesis
    unfolding export_found[OF Some] Some option.case csv_rows_lines
    by (simp del: map_map)
qed

theorem exportSessionAsCSV_format_witness:
  "exportSessionAsCSV ''session_1'' example_store =
     Inr (''Image ID,Count,Timestamp,Corrections'' @ [NL] @
          ''img_2,5,2024-05-01T10:00:00.000Z,0'' @ [NL] @
          ''img_3,3,2024-05-01T10:05:30.000Z,1'' @ [NL] @
          [NL] @
          ''Total Count:,8'' @ [NL]) \<and>
   exportSessionAsCSV ''session_9'' example_store = Inl SessionNotFound"
proof -
  have a: "getSession ''session_1'' example_store = Some widgets"
    by (simp add: getSession_def example_store_def bolts_def widgets_def)
  have b: "getSession ''session_9'' example_store = None"
    by (simp add: getSession_def example_store_def bolts_def widgets_def)
  have n: "int_to_string 5 = ''5'' \<and> int_to_string 3 = ''3'' \<and> int_to_string 0 = ''0''
           \<and> int_to_string 1 = ''1'' \<and> int_to_string 8 = ''8''" by code_simp
  have i: "sess_images widgets = [image_a, image_b] \<and> sess_totalCount widgets = 8"
    by (simp add: widgets_def)
  from exportSessionAsCSV_format [of "''session_1''" example_store]
       exportSessionAsCSV_format [of "''session_9''" example_store]
  show ?thesis unfolding a b by (simp add: i n image_a_def image_b_def)
qed

section \<open>Placeholder synthesis: the grid\<close>

lemma placeholder_cols_nat:
  "placeholder_cols (Some (int n)) = Some (int (nat \<lceil>sqrt (real n)\<rceil>))"
proof -
  have "0 \<le> sqrt (real n)" by simp
  then have "- 1 < sqrt (real n)" by linarith
  then have "0 \<le> \<lceil>sqrt (real n)\<rceil>" by (simp only: zero_le_ceiling)
  then show ?thesis by (simp add: placeholder_cols_def)
qed

lemma placeholder_rows_nat:
  "0 < k \<Longrightarrow> placeholder_rows (Some (int n)) (Some (int k)) = Some (int (nat \<lceil>real n / real k\<rceil>))"
proof -
  assume "0 < k"
  have "0 \<le> real n / real k" by simp
  then have "0 \<le> \<lceil>real n / real k\<rceil>" by (simp only: zero_le_ceiling)
  then show ?thesis using \<open>0 < k\<close> by (simp add: placeholder_rows_def)
qed

lemma generate_zero: "generatePlaceholderDetections (Some 0) = []"
proof -
  have c: "placeholder_cols (Some 0) = Some 0" by (simp add: placeholder_cols_def)
  have r: "placeholder_rows (Some 0) (Some 0) = None" by (simp add: placeholder_rows_def)
  show ?thesis
    unfolding generatePlaceholderDetections_def Let_def c r
    by (subst rows_loop.simps) (simp add: js_less_NaN)
qed

lemma generate_grid:
  "generatePlaceholderDetections (Some (int n)) = map (grid_cell (nat \<lceil>sqrt (real n)\<rceil>)) [0..<n]"
proof (cases "n = 0")
  case True
  then show ?thesis using generate_zero by simp
next
  case False
  let ?k = "nat \<lceil>sqrt (real n)\<rceil>"
  let ?R = "nat \<lceil>real n / real ?k\<rceil>"
  from False have "0 < \<lceil>sqrt (real n)\<rceil>" by (intro ceiling_sqrt_pos) simp
  then have k: "0 < ?k" by simp
  have cover: "min n (?R * ?k) = n" using ceiling_div_covers[OF k, of n] by simp
  have "generatePlaceholderDetections (Some (int n)) =
        rows_loop (Some (int n)) (Some (int ?k)) (Some (int ?R)) 0 (min n (0 * ?k)) []"
    unfolding generatePlaceholderDetections_def Let_def placeholder_cols_nat
      placeholder_rows_nat[OF k] by simp
  also have "\<dots> = [] @ map (grid_cell ?k) [min n (0 * ?k)..<min n (?R * ?k)]"
    by (rule rows_loop_run[OF k])
  finally show ?thesis unfolding cover by simp
qed


lemma sqrt10: "\<lceil>sqrt (10::real)\<rceil> = 4"
  using ceiling_sqrt_eq[of 10 4] by simp

lemma upt10: "[0..<10] = [0,1,2,3,4,5,6,7,8,9::nat]"
  by (simp add: upt_rec)

lemma grid_cell_fields:
  "grid_cell k i =
     \<lparr> det_id = ''obj_'' @ nat_to_string i,
       det_bbox = \<lparr> bbox_x = Fin (50 + real (i mod k) * 100),
                    bbox_y = Fin (50 + real (i div k) * 100),
                    bbox_width = Fin 60, bbox_height = Fin 60 \<rparr>,
       det_confidence = 1, det_class = Some ''object'', det_manual = Some False \<rparr>"
  by (simp add: grid_cell_def placeholder_def)

lemma grid_position:
  fixes n :: nat
  assumes "i < n"
  shows "int (i mod nat \<lceil>sqrt (real n)\<rceil>) < \<lceil>sqrt (real n)\<rceil> \<and>
         int (i div nat \<lceil>sqrt (real n)\<rceil>) < \<lceil>real n / real_of_int \<lceil>sqrt (real n)\<rceil>\<rceil>"
proof -
  let ?k = "nat \<lceil>sqrt (real n)\<rceil>"
  let ?R = "nat \<lceil>real n / real ?k\<rceil>"
  from assms have "0 < n" by simp
  then have pos: "0 < \<lceil>sqrt (real n)\<rceil>" by (rule ceiling_sqrt_pos)
  then have nn: "0 \<le> \<lceil>sqrt (real n)\<rceil>" by (rule less_imp_le)
  from pos have k: "0 < ?k" by (simp only: zero_less_nat_eq)
  have kk: "int ?k = \<lceil>sqrt (real n)\<rceil>" by (rule nat_0_le[OF nn])
  have rk: "real ?k = real_of_int \<lceil>sqrt (real n)\<rceil>" by (rule of_nat_nat[OF nn])
  have "0 \<le> real n / real ?k" by (rule divide_nonneg_nonneg) (rule of_nat_0_le_iff)+
  then have "- 1 < real n / real ?k" by (rule less_le_trans[rotated]) simp
  then have "0 \<le> \<lceil>real n / real ?k\<rceil>" by (simp only: zero_le_ceiling)
  then have RR: "int ?R = \<lceil>real n / real ?k\<rceil>" by simp
  have "i < ?R * ?k" using assms ceiling_div_covers[OF k, of n] by linarith
  then have "i div ?k < ?R" using k by (simp add: div_less_iff_less_mult)
  then have "int (i div ?k) < int ?R" by (simp only: of_nat_less_iff)
  then have d1: "int (i div ?k) < \<lceil>real n / real ?k\<rceil>" unfolding RR .
  have "i mod ?k < ?k" using k by simp
  then have "int (i mod ?k) < int ?k" by (simp only: of_nat_less_iff)
  then have d2: "int (i mod ?k) < \<lceil>sqrt (real n)\<rceil>" unfolding kk .
  from d1 have d3: "int (i div ?k) < \<lceil>real n / real_of_int \<lceil>sqrt (real n)\<rceil>\<rceil>"
    unfolding rk .
  show ?thesis by (rule conjI[OF d2 d3])
qed

text \<open>
  C6. For every count \<open>n \<ge> 0\<close>, placeholder synthesis returns exactly \<open>n\<close> detections;
  detection \<open>i\<close> (from 0, row by row) lies in column \<open>i mod cols\<close> and row \<open>i div cols\<close>
  of a grid of \<open>cols = ceil(sqrt n)\<close> columns and \<open>rows = ceil(n / cols)\<close> rows, at
  \<open>x = 50 + 100 * column\<close>, \<open>y = 50 + 100 * row\<close> with size 60 by 60, confidence 1 and
  \<open>manual = false\<close>. For \<open>n = 10\<close> there are 10 placeholders, 4 columns and 3 rows.
\<close>

theorem generatePlaceholderDetections_grid:
  fixes n :: nat
  shows
  "generatePlaceholderDetections (Some (int n)) =
     map (\<lambda>i. \<lparr> det_id = ''obj_'' @ nat_to_string i,
                det_bbox = \<lparr> bbox_x = Fin (50 + real (i mod nat \<lceil>sqrt (real n)\<rceil>) * 100),
                             bbox_y = Fin (50 + real (i div nat \<lceil>sqrt (real n)\<rceil>) * 100),
                             bbox_width = Fin 60, bbox_height = Fin 60 \<rparr>,
                det_confidence = 1, det_class = Some ''object'', det_manual = Some False \<rparr>)
       [0..<n] \<and>
   length (generatePlaceholderDetections (Some (int n))) = n \<and>
   placeholder_cols (Some (int n)) = Some \<lceil>sqrt (real n)\<rceil> \<and>
   (0 < n \<longrightarrow>
      placeholder_rows (Some (int n)) (placeholder_cols (Some (int n))) =
        Some \<lceil>real n / real_of_int \<lceil>sqrt (real n)\<rceil>\<rceil>) \<and>
   (\<forall>i < n. int (i mod nat \<lceil>sqrt (real n)\<rceil>) < \<lceil>sqrt (real n)\<rceil> \<and>
            int (i div nat \<lceil>sqrt (real n)\<rceil>) < \<lceil>real n / real_of_int \<lceil>sqrt (real n)\<rceil>\<rceil>) \<and>
   placeholder_cols (Some 10) = Some 4 \<and>
   placeholder_rows (Some 10) (Some 4) = Some 3 \<and>
   length (generatePlaceholderDetections (Some 10)) = 10"
proof (intro conjI allI impI)
  show g: "generatePlaceholderDetections (Some (int n)) =
     map (\<lambda>i. \<lparr> det_id = ''obj_'' @ nat_to_string i,
                det_bbox = \<lparr> bbox_x = Fin (50 + real (i mod nat \<lceil>sqrt (real n)\<rceil>) * 100),
                             bbox_y = Fin (50 + real (i div nat \<lceil>sqrt (real n)\<rceil>) * 100),
                             bbox_width = Fin 60, bbox_height = Fin 60 \<rparr>,
                det_confidence = 1, det_class = Some ''object'', det_manual = Some False \<rparr>)
       [0..<n]"
    unfolding generate_grid by (rule map_cong[OF refl]) (rule grid_cell_fields)
  show "length (generatePlaceholderDetections (Some (int n))) = n"
    unfolding generate_grid by simp
  have "0 \<le> sqrt (real n)" by simp
  then have "- 1 < sqrt (real n)" by linarith
  then have nonneg: "0 \<le> \<lceil>sqrt (real n)\<rceil>" by (simp only: zero_le_ceiling)
  then show c: "placeholder_cols (Some (int n)) = Some \<lceil>sqrt (real n)\<rceil>"
    unfolding placeholder_cols_nat by simp
  {
    assume "0 < n"
    then have "0 < \<lceil>sqrt (real n)\<rceil>" by (rule ceiling_sqrt_pos)
    then have "0 \<noteq> \<lceil>sqrt (real n)\<rceil>" by (rule order.strict_implies_not_eq)
    then have ne: "\<lceil>sqrt (real n)\<rceil> \<noteq> 0" by (rule not_sym)
    show "placeholder_rows (Some (int n)) (placeholder_cols (Some (int n))) =
        Some \<lceil>real n / real_of_int \<lceil>sqrt (real n)\<rceil>\<rceil>"
      unfolding c by (simp add: placeholder_rows_def ne)
  }
  {
    fix i assume "i < n"
    from grid_position[OF this]
    show "int (i mod nat \<lceil>sqrt (real n)\<rceil>) < \<lceil>sqrt (real n)\<rceil>"
      and "int (i div nat \<lceil>sqrt (real n)\<rceil>) < \<lceil>real n / real_of_int \<lceil>sqrt (real n)\<rceil>\<rceil>"
      by simp_all
  }
  show "placeholder_cols (Some 10) = Some 4"
    by (simp add: placeholder_cols_def sqrt10)
  show "placeholder_rows (Some 10) (Some 4) = Some 3"
    by (simp add: placeholder_rows_def ceiling_eq_iff)
  show "length (generatePlaceholderDetections (Some 10)) = 10"
    using generate_grid[of 10] by simp
qed


theorem generatePlaceholderDetections_grid_witness:
  "(0::nat) < 10 \<and>
   placeholder_cols (Some 10) = Some 4 \<and>
   placeholder_rows (Some 10) (placeholder_cols (Some 10)) = Some 3 \<and>
   map (\<lambda>d. (det_id d, bbox_x (det_bbox d), bbox_y (det_bbox d), bbox_width (det_bbox d),
              bbox_height (det_bbox d), det_confidence d, det_manual d))
     (generatePlaceholderDetections (Some 10)) =
     [(''obj_0'', Fin 50, Fin 50, Fin 60, Fin 60, 1, Some False), (''obj_1'', Fin 150, Fin 50, Fin 60, Fin 60, 1, Some False),
      (''obj_2'', Fin 250, Fin 50, Fin 60, Fin 60, 1, Some False), (''obj_3'', Fin 350, Fin 50, Fin 60, Fin 60, 1, Some False),
      (''obj_4'', Fin 50, Fin 150, Fin 60, Fin 60, 1, Some False), (''obj_5'', Fin 150, Fin 150, Fin 60, Fin 60, 1, Some False),
      (''obj_6'', Fin 250, Fin 150, Fin 60, Fin 60, 1, Some False), (''obj_7'', Fin 350, Fin 150, Fin 60, Fin 60, 1, Some False),
      (''obj_8'', Fin 50, Fin 250, Fin 60, Fin 60, 1, Some False), (''obj_9'', Fin 150, Fin 250, Fin 60, Fin 60, 1, Some False)]"
proof -
  note grid = generatePlaceholderDetections_grid [of 10]
  have k: "nat \<lceil>sqrt (10::real)\<rceil> = 4" unfolding sqrt10 by simp
  from grid have c: "placeholder_cols (Some 10) = Some 4" by (elim conjE)
  from grid have r: "placeholder_rows (Some 10) (Some 4) = Some 3" by (elim conjE)
  have g: "generatePlaceholderDetections (Some 10) =
     map (\<lambda>i. \<lparr> det_id = ''obj_'' @ nat_to_string i,
                det_bbox = \<lparr> bbox_x = Fin (50 + real (i mod 4) * 100),
                             bbox_y = Fin (50 + real (i div 4) * 100),
                             bbox_width = Fin 60, bbox_height = Fin 60 \<rparr>,
                det_confidence = 1, det_class = Some ''object'', det_manual = Some False \<rparr>)
       [0..<10]"
    using conjunct1[OF grid] unfolding of_nat_numeral k .
  show ?thesis unfolding c r g upt10 by (simp add: digit_char_def nat_to_string.simps)
qed

text \<open>
  C10. At count 0 the number of columns is 0 and the number of rows is NaN (the quotient
  \<open>0 / 0\<close>); the tests \<open>0 < rows\<close> of the outer loop and \<open>0 < cols\<close> of the inner loop
  are false, so neither loop runs, and the result is the empty list.
\<close>

theorem generatePlaceholderDetections_zero:
  "placeholder_cols (Some 0) = Some 0 \<and>
   placeholder_rows (Some 0) (placeholder_cols (Some 0)) = None \<and>
   js_less 0 (placeholder_rows (Some 0) (placeholder_cols (Some 0))) = False \<and>
   js_less 0 (placeholder_cols (Some 0)) = False \<and>
   generatePlaceholderDetections (Some 0) = []"
proof -
  have c: "placeholder_cols (Some 0) = Some 0" by (simp add: placeholder_cols_def)
  have r: "placeholder_rows (Some 0) (Some 0) = None" by (simp add: placeholder_rows_def)
  show ?thesis unfolding c r using generate_zero by (simp add: js_less_def)
qed

section \<open>The detector: extracting the count, failing requests\<close>

lemma callOpenAIVision_content:
  "callOpenAIVision (Content content) = Inr (parseInt_10 (trim content))"
  by (simp add: callOpenAIVision_def try_parseInt_10_def)

lemma trim_about: "trim ''About 12 objects'' = ''About 12 objects''"
  by (simp add: trim_def is_js_whitespace_def)

lemma parse_about: "parseInt_10 ''About 12 objects'' = None"
  by (simp add: parseInt_10_def parseInt_digits_def is_js_whitespace_def is_radix_digit_def
      digit_val_def)

lemma run_about: "first_digit_run ''About 12 objects'' = Some ''12''"
  by (simp add: first_digit_run_def is_dec_digit_def is_radix_digit_def digit_val_def Let_def)

lemma parse_12: "parseInt_10 ''12'' = Some 12"
  by (simp add: parseInt_10_def parseInt_digits_def is_js_whitespace_def is_radix_digit_def
      digit_val_def digits_value_def)

text \<open>
  C5. The count returned for a textual response is always the direct parse of the trimmed
  text: the digit-run fallback sits in a \<open>catch\<close> block that \<open>parseInt\<close> never enters.
  For the response \<open>About 12 objects\<close> the code returns NaN, from which no placeholder is
  made, where the first run of digits is \<open>12\<close> and the specification's count is 12.
\<close>

theorem callOpenAIVision_fallback_unreached:
  "callOpenAIVision (Content content) = Inr (parseInt_10 (trim content)) \<and>
   callOpenAIVision (Content ''About 12 objects'') = Inr None \<and>
   first_digit_run (trim ''About 12 objects'') = Some ''12'' \<and>
   spec_extractCount (trim ''About 12 objects'') = Some 12 \<and>
   generatePlaceholderDetections None = []"
proof -
  have nan: "generatePlaceholderDetections None = []"
    unfolding generatePlaceholderDetections_def Let_def
    by (subst rows_loop.simps) (simp add: placeholder_cols_def placeholder_rows_def js_less_NaN)
  show ?thesis
    unfolding callOpenAIVision_content trim_about spec_extractCount_def parse_about run_about
    by (simp add: parse_12 nan)
qed

lemma detectObjects_fails:
  assumes "detector_fails ml env"
  shows "\<exists>ml'. detectObjects ml env =
           ([], [if ml_apiKey ml = [] then AlertApiKeyRequired else AlertDetectionError], ml')"
proof (cases "ml_apiKey ml = []")
  case True
  then show ?thesis by (simp add: detectObjects_def Let_def)
next
  case False
  with assms have "\<not> env_fileExists env \<or> env_api env = FetchThrows \<or> env_api env = NotOk"
    by (simp add: detector_fails_def)
  then have "(if \<not> env_fileExists env then Inl ImageMissing else callOpenAIVision (env_api env))
             \<in> {Inl ImageMissing, Inl RequestFailed, Inl ApiError}"
    by (auto simp: callOpenAIVision_def)
  with False show ?thesis by (auto simp: detectObjects_def Let_def)
qed

text \<open>
  C4, as claimed: a failed detector request leaves the detections as they were and is
  reported apart from the outcome with no objects. It does not: a recount whose request
  fails on the network empties the two detections on display, records an automatic count
  of 0 and shows the alert for no objects after the alert for the error.
\<close>

theorem processImageWithAI_failure_counterexample:
  "detector_fails ml_with_key env_network_down \<and>
   rs_detections review_auto \<noteq> [] \<and>
   rs_detections (fst (processImageWithAI ml_with_key env_network_down review_auto)) = [] \<and>
   rs_autoCount (fst (processImageWithAI ml_with_key env_network_down review_auto)) = Some 0 \<and>
   rs_alerts (fst (processImageWithAI ml_with_key env_network_down review_auto)) =
     [AlertDetectionError, AlertNoObjectsDetected]"
  by (simp add: detector_fails_def ml_with_key_def env_network_down_def review_auto_def
      initial_ReviewState_def processImageWithAI_def detectObjects_def callOpenAIVision_def Let_def)

text \<open>
  C4, amended. When the request fails (the screen or the service holds no key, the image
  file is missing, the remote call throws or answers with an error status), the mode is
  unchanged, the detections are empty (the request clears them when it starts),
  processing is over, and the failure is surfaced: when the screen holds no key, by
  opening the key prompt, with no alert; otherwise by an alert of the detector service,
  \<open>API Key Required\<close> when the service holds no key and \<open>Detection Error\<close> for every other
  failure.
\<close>

theorem processImageWithAI_on_failure:
  assumes "rs_apiKey st = [] \<or> detector_fails ml env"
  shows "rs_mode (fst (processImageWithAI ml env st)) = rs_mode st \<and>
         rs_detections (fst (processImageWithAI ml env st)) = [] \<and>
         \<not> rs_isProcessing (fst (processImageWithAI ml env st)) \<and>
         (rs_apiKey st = [] \<longrightarrow>
            rs_showApiKeyInput (fst (processImageWithAI ml env st)) \<and>
            rs_alerts (fst (processImageWithAI ml env st)) = rs_alerts st) \<and>
         (rs_apiKey st \<noteq> [] \<longrightarrow>
            (\<exists>more. rs_alerts (fst (processImageWithAI ml env st)) =
               rs_alerts st @
               (if ml_apiKey ml = [] then AlertApiKeyRequired else AlertDetectionError) # more))"
proof (cases "rs_apiKey st = []")
  case True
  then show ?thesis by (simp add: processImageWithAI_def Let_def)
next
  case False
  with assms have "detector_fails ml env" by simp
  from detectObjects_fails[OF this] obtain ml' where
    d: "detectObjects ml env =
          ([], [if ml_apiKey ml = [] then AlertApiKeyRequired else AlertDetectionError], ml')"
    by (elim exE)
  show ?thesis using False unfolding processImageWithAI_def Let_def d by simp
qed


theorem processImageWithAI_on_failure_witness:
  "detector_fails ml_with_key env_network_down \<and>
   rs_mode (fst (processImageWithAI ml_with_key env_network_down review_auto)) = Auto \<and>
   rs_detections (fst (processImageWithAI ml_with_key env_network_down review_auto)) = [] \<and>
   \<not> rs_isProcessing (fst (processImageWithAI ml_with_key env_network_down review_auto)) \<and>
   rs_apiKey initial_ReviewState = [] \<and>
   rs_mode (fst (processImageWithAI ml_with_key env_network_down initial_ReviewState)) = Manual \<and>
   rs_showApiKeyInput (fst (processImageWithAI ml_with_key env_network_down initial_ReviewState)) \<and>
   rs_alerts (fst (processImageWithAI ml_with_key env_network_down initial_ReviewState)) = []"
proof -
  have f: "detector_fails ml_with_key env_network_down"
    by (simp add: detector_fails_def env_network_down_def)
  have k: "rs_apiKey initial_ReviewState = []" by (simp add: initial_ReviewState_def)
  have m: "rs_mode review_auto = Auto" "rs_mode initial_ReviewState = Manual"
    "rs_alerts initial_ReviewState = []"
    by (simp_all add: review_auto_def initial_ReviewState_def)
  from processImageWithAI_on_failure [of review_auto ml_with_key env_network_down]
       processImageWithAI_on_failure [of initial_ReviewState ml_with_key env_network_down] f k m
  show ?thesis by simp
qed

section \<open>Decimal text of a number and its parse\<close>

lemma digit_cases:
  "d < 10 \<Longrightarrow> d = 0 \<or> d = 1 \<or> d = 2 \<or> d = 3 \<or> d = 4 \<or> d = 5 \<or> d = 6 \<or> d = 7
     \<or> d = 8 \<or> d = (9::nat)"
  by arith

lemma digit_val_digit_char: "d < 10 \<Longrightarrow> digit_val (digit_char d) = Some d"
proof -
  assume "d < 10"
  then have "d = 0 \<or> d = 1 \<or> d = 2 \<or> d = 3 \<or> d = 4 \<or> d = 5 \<or> d = 6 \<or> d = 7
     \<or> d = 8 \<or> d = 9" by (rule digit_cases)
  then show ?thesis by (elim disjE) (simp_all add: digit_char_def digit_val_def)
qed

lemma digit_char_props:
  assumes "d < 10"
  shows "is_radix_digit 10 (digit_char d)" "\<not> is_js_whitespace (digit_char d)"
    "digit_char d \<noteq> CHR ''-''" "digit_char d \<noteq> CHR ''+''"
    "digit_char d \<noteq> CHR ''x''" "digit_char d \<noteq> CHR ''X''"
proof -
  from assms have "d = 0 \<or> d = 1 \<or> d = 2 \<or> d = 3 \<or> d = 4 \<or> d = 5 \<or> d = 6 \<or> d = 7
     \<or> d = 8 \<or> d = 9" by (rule digit_cases)
  then have "digit_char d \<in> set ''0123456789''"
    by (elim disjE) (simp_all add: digit_char_def)
  then show "is_radix_digit 10 (digit_char d)" "\<not> is_js_whitespace (digit_char d)"
    "digit_char d \<noteq> CHR ''-''" "digit_char d \<noteq> CHR ''+''"
    "digit_char d \<noteq> CHR ''x''" "digit_char d \<noteq> CHR ''X''"
    by (auto simp: is_radix_digit_def digit_val_def is_js_whitespace_def)
qed

lemma nat_to_string_digits: "\<forall>c \<in> set (nat_to_string n). \<exists>d < 10. c = digit_char d"
proof (induction n rule: nat_to_string.induct)
  case (1 n)
  show ?case
  proof (cases "n < 10")
    case True
    then show ?thesis by (subst nat_to_string.simps) auto
  next
    case False
    have "\<exists>d<10. digit_char (n mod 10) = digit_char d"
      by (rule exI[of _ "n mod 10"]) simp
    with False 1 show ?thesis by (subst nat_to_string.simps) auto
  qed
qed

lemma nat_to_string_nonempty: "nat_to_string n \<noteq> []"
  by (subst nat_to_string.simps) simp

lemma nat_to_string_takeWhile:
  "takeWhile (is_radix_digit 10) (nat_to_string n) = nat_to_string n"
  using nat_to_string_digits[of n] by (auto simp: takeWhile_eq_all_conv digit_char_props)

lemma digits_value_snoc:
  "digits_value R (ds @ [c]) = digits_value R ds * R + the (digit_val c)"
  by (simp add: digits_value_def)

lemma digits_value_nat_to_string: "digits_value 10 (nat_to_string n) = n"
proof (induction n rule: nat_to_string.induct)
  case (1 n)
  show ?case
  proof (cases "n < 10")
    case True
    then show ?thesis
      by (subst nat_to_string.simps) (simp add: digits_value_def digit_val_digit_char)
  next
    case False
    have "n mod 10 < 10" by simp
    then have "digit_val (digit_char (n mod 10)) = Some (n mod 10)" by (rule digit_val_digit_char)
    with False 1 show ?thesis
      by (subst nat_to_string.simps) (simp add: digits_value_snoc)
  qed
qed

lemma nat_to_string_hd:
  "\<exists>d < 10. \<exists>rest. nat_to_string n = digit_char d # rest \<and> (\<forall>c \<in> set rest. \<exists>e < 10. c = digit_char e)"
proof -
  obtain c rest where cr: "nat_to_string n = c # rest"
    using nat_to_string_nonempty[of n] by (cases "nat_to_string n") auto
  with nat_to_string_digits[of n] show ?thesis by auto
qed

lemma parse_nat_to_string:
  "parseInt (nat_to_string n) = Some (int n)" "parseInt_10 (nat_to_string n) = Some (int n)"
proof -
  from nat_to_string_hd[of n] obtain d rest where
    d: "d < 10" and eq: "nat_to_string n = digit_char d # rest"
    and rest: "\<forall>c \<in> set rest. \<exists>e < 10. c = digit_char e" by blast
  have ws: "dropWhile is_js_whitespace (nat_to_string n) = nat_to_string n"
    unfolding eq using digit_char_props(2)[OF d] by simp
  have sign: "read_sign (nat_to_string n) = (1, nat_to_string n)"
    unfolding eq using digit_char_props(3,4)[OF d] by simp
  have hex: "\<not> has_hex_prefix (nat_to_string n)"
  proof (cases rest)
    case Nil
    then show ?thesis unfolding eq by simp
  next
    case (Cons b bs)
    with rest obtain e where "e < 10" "b = digit_char e" by auto
    then show ?thesis unfolding eq Cons using digit_char_props(5,6)[of e] by simp
  qed
  have digits: "parseInt_digits 10 1 (nat_to_string n) = Some (int n)"
    by (simp add: parseInt_digits_def nat_to_string_takeWhile nat_to_string_nonempty
        digits_value_nat_to_string)
  show "parseInt (nat_to_string n) = Some (int n)"
    by (simp add: parseInt_def ws sign hex digits)
  show "parseInt_10 (nat_to_string n) = Some (int n)"
    by (simp add: parseInt_10_def ws sign digits)
qed

section \<open>The review screen in Manual mode\<close>

text \<open>
  C8, as claimed: typing a nonzero number that differs from the number of detections
  clears the detections and the corrections. It does not for a negative number: with two
  detections, typing \<open>-3\<close> leaves both detections and the two corrections.
\<close>

theorem handleManualCountChange_negative_counterexample:
  "parseInt ''-3'' = Some (- 3) \<and>
   length (rs_detections review_two_taps) = 2 \<and>
   rs_detections (handleManualCountChange ''-3'' review_two_taps) = [tap_1, tap_2] \<and>
   rs_manualCorrections (handleManualCountChange ''-3'' review_two_taps) = 2"
proof -
  have p: "parseInt ''-3'' = Some (- 3)"
    by (simp add: parseInt_def parseInt_digits_def is_js_whitespace_def is_radix_digit_def
        digit_val_def digits_value_def)
  show ?thesis
    by (simp add: p handleManualCountChange_def or_zero_def review_two_taps_def Let_def)
qed

lemma handleManualCountChange_cases:
  "handleManualCountChange text st =
     (if 0 < or_zero (parseInt text) \<and> or_zero (parseInt text) \<noteq> int (length (rs_detections st))
      then st\<lparr> rs_manualCountInput := text, rs_detections := [], rs_manualCorrections := 0 \<rparr>
      else st\<lparr> rs_manualCountInput := text \<rparr>)"
  unfolding handleManualCountChange_def Let_def by (rule refl)

text \<open>
  C8, amended. The number typed is the integer \<open>parseInt(text) || 0\<close>. Typing a text whose
  number is positive and differs from the number of detections clears the detections and
  sets the corrections to 0; the decimal text of a positive integer is such a text.
  Typing a text whose number equals the number of detections, or is zero or negative,
  changes neither the detections nor the corrections. In every case the text is stored
  in the field, and nothing else of the state changes.
\<close>

theorem handleManualCountChange_override:
  "(0 < n \<and> n \<noteq> length (rs_detections st) \<longrightarrow>
      handleManualCountChange (nat_to_string n) st =
        st\<lparr> rs_manualCountInput := nat_to_string n, rs_detections := [],
            rs_manualCorrections := 0 \<rparr>) \<and>
   (n = length (rs_detections st) \<longrightarrow>
      handleManualCountChange (nat_to_string n) st = st\<lparr> rs_manualCountInput := nat_to_string n \<rparr>) \<and>
   (0 < or_zero (parseInt text) \<and> or_zero (parseInt text) \<noteq> int (length (rs_detections st)) \<longrightarrow>
      handleManualCountChange text st =
        st\<lparr> rs_manualCountInput := text, rs_detections := [], rs_manualCorrections := 0 \<rparr>) \<and>
   (or_zero (parseInt text) = int (length (rs_detections st)) \<longrightarrow>
      handleManualCountChange text st = st\<lparr> rs_manualCountInput := text \<rparr>) \<and>
   (or_zero (parseInt text) \<le> 0 \<longrightarrow>
      handleManualCountChange text st = st\<lparr> rs_manualCountInput := text \<rparr>)"
proof -
  have v: "or_zero (parseInt (nat_to_string n)) = int n"
    by (simp add: parse_nat_to_string or_zero_def)
  show ?thesis
    unfolding handleManualCountChange_cases v by simp
qed

theorem handleManualCountChange_override_witness:
  "(0::nat) < 5 \<and> 5 \<noteq> length (rs_detections review_two_taps) \<and>
   rs_detections (handleManualCountChange ''5'' review_two_taps) = [] \<and>
   rs_manualCorrections (handleManualCountChange ''5'' review_two_taps) = 0 \<and>
   rs_manualCountInput (handleManualCountChange ''5'' review_two_taps) = ''5'' \<and>
   2 = length (rs_detections review_two_taps) \<and>
   handleManualCountChange ''2'' review_two_taps = review_two_taps \<and>
   or_zero (parseInt ''02'') = int (length (rs_detections review_two_taps)) \<and>
   handleManualCountChange ''02'' review_two_taps =
     review_two_taps\<lparr> rs_manualCountInput := ''02'' \<rparr> \<and>
   rs_detections (handleManualCountChange ''02'' review_two_taps) = [tap_1, tap_2] \<and>
   or_zero (parseInt ''-3'') \<le> 0 \<and>
   rs_detections (handleManualCountChange ''-3'' review_two_taps) = [tap_1, tap_2]"
proof -
  have s5: "nat_to_string 5 = ''5''" and s2: "nat_to_string 2 = ''2''"
    by (simp_all add: nat_to_string.simps digit_char_def)
  have len: "length (rs_detections review_two_taps) = 2" by (simp add: review_two_taps_def)
  have p3: "parseInt ''-3'' = Some (- 3)"
    by (simp add: parseInt_def parseInt_digits_def is_js_whitespace_def is_radix_digit_def
        digit_val_def digits_value_def)
  have p02: "parseInt ''02'' = Some 2"
    by (simp add: parseInt_def parseInt_digits_def is_js_whitespace_def is_radix_digit_def
        digit_val_def digits_value_def)
  have same: "review_two_taps\<lparr> rs_manualCountInput := ''2'' \<rparr> = review_two_taps"
    by (simp add: review_two_taps_def)
  note five = handleManualCountChange_override [of 5 review_two_taps "''-3''"]
  note two = handleManualCountChange_override [of 2 review_two_taps "''02''"]
  from five have a: "handleManualCountChange ''5'' review_two_taps =
      review_two_taps\<lparr> rs_manualCountInput := ''5'', rs_detections := [],
        rs_manualCorrections := 0 \<rparr>"
    unfolding s5 len by simp
  from five have b: "handleManualCountChange ''-3'' review_two_taps =
      review_two_taps\<lparr> rs_manualCountInput := ''-3'' \<rparr>"
    unfolding p3 by (simp add: or_zero_def)
  from two have c: "handleManualCountChange ''2'' review_two_taps = review_two_taps"
    unfolding s2 len same by simp
  from two have d: "handleManualCountChange ''02'' review_two_taps =
      review_two_taps\<lparr> rs_manualCountInput := ''02'' \<rparr>"
    unfolding p02 len by (simp add: or_zero_def)
  have ds: "rs_detections review_two_taps = [tap_1, tap_2]" by (simp add: review_two_taps_def)
  show ?thesis unfolding a b c d p3 p02 by (simp add: or_zero_def ds)
qed

lemma filter_other_ids:
  assumes "distinct (map det_id ds)" "d \<in> set ds"
  shows "filter (\<lambda>e. det_id e \<noteq> det_id d) ds = remove1 d ds"
  using assms
proof (induction ds)
  case Nil
  then show ?case by simp
next
  case (Cons a as)
  show ?case
  proof (cases "a = d")
    case True
    with Cons.prems(1) have "det_id d \<notin> det_id ` set as" by simp
    then have "\<forall>e \<in> set as. det_id e \<noteq> det_id d" by (metis imageI)
    then have "filter (\<lambda>e. det_id e \<noteq> det_id d) as = as" by (simp add: filter_id_conv)
    with True show ?thesis by simp
  next
    case False
    with Cons.prems have "d \<in> set as" "distinct (map det_id as)" "det_id a \<noteq> det_id d"
      by auto
    with Cons.IH False show ?thesis by simp
  qed
qed

lemma nat_to_string_small:
  "nat_to_string 1 = ''1''" "nat_to_string 2 = ''2''" "nat_to_string 3 = ''3''"
  "nat_to_string (Suc 0) = ''1''" "nat_to_string (Suc (Suc 0)) = ''2''"
  "nat_to_string (Suc (Suc (Suc 0))) = ''3''"
  by (simp_all add: nat_to_string.simps digit_char_def)

lemma handleImagePress_manual:
  assumes "rs_mode st = Manual" "\<not> rs_isProcessing st"
  shows "handleImagePress screenWidth locationX locationY now rnd st =
     st\<lparr> rs_detections := rs_detections st @
            [createManualDetection
               (js_mul locationX (js_div (rs_imageSize_width st) screenWidth))
               (js_mul locationY (js_div (rs_imageSize_height st) (rs_imageSize_height st)))
               40 now rnd],
         rs_manualCorrections := rs_manualCorrections st + 1,
         rs_manualCountInput := nat_to_string (length (rs_detections st) + 1) \<rparr>"
  using assms unfolding handleImagePress_def Let_def by (simp only: simp_thms if_True)

lemma removeDetection_manual:
  assumes "rs_mode st = Manual"
  shows "removeDetection ident st =
     st\<lparr> rs_detections := filter (\<lambda>e. det_id e \<noteq> ident) (rs_detections st),
         rs_manualCorrections := rs_manualCorrections st + 1,
         rs_manualCountInput :=
           nat_to_string (length (filter (\<lambda>e. det_id e \<noteq> ident) (rs_detections st))) \<rparr>"
  using assms unfolding removeDetection_def Let_def by (simp only: simp_thms if_True)

lemma createManualDetection_id [simp]:
  "det_id (createManualDetection x y sz now rnd) = ''manual_'' @ nat_to_string now @ ''_'' @ rnd"
  by (simp add: createManualDetection_def)

lemma three_adds:
  assumes "rs_mode st = Manual" "\<not> rs_isProcessing st"
    "rs_detections st = []" "rs_manualCorrections st = 0"
  shows "handleImagePress sw x3 y3 n3 r3 (handleImagePress sw x2 y2 n2 r2
           (handleImagePress sw x1 y1 n1 r1 st)) =
     st\<lparr> rs_detections :=
           [createManualDetection (js_mul x1 (js_div (rs_imageSize_width st) sw))
              (js_mul y1 (js_div (rs_imageSize_height st) (rs_imageSize_height st))) 40 n1 r1,
            createManualDetection (js_mul x2 (js_div (rs_imageSize_width st) sw))
              (js_mul y2 (js_div (rs_imageSize_height st) (rs_imageSize_height st))) 40 n2 r2,
            createManualDetection (js_mul x3 (js_div (rs_imageSize_width st) sw))
              (js_mul y3 (js_div (rs_imageSize_height st) (rs_imageSize_height st))) 40 n3 r3],
         rs_manualCorrections := 3,
         rs_manualCountInput := ''3'' \<rparr>"
proof -
  let ?s1 = "handleImagePress sw x1 y1 n1 r1 st"
  let ?s2 = "handleImagePress sw x2 y2 n2 r2 ?s1"
  have s1: "?s1 = st\<lparr> rs_detections :=
           [createManualDetection (js_mul x1 (js_div (rs_imageSize_width st) sw))
              (js_mul y1 (js_div (rs_imageSize_height st) (rs_imageSize_height st))) 40 n1 r1],
         rs_manualCorrections := 1, rs_manualCountInput := ''1'' \<rparr>"
    unfolding handleImagePress_manual[OF assms(1,2)] using assms(3,4)
    by (simp add: nat_to_string_small)
  have m1: "rs_mode ?s1 = Manual" "\<not> rs_isProcessing ?s1"
    unfolding s1 using assms(1,2) by simp_all
  have s2: "?s2 = st\<lparr> rs_detections :=
           [createManualDetection (js_mul x1 (js_div (rs_imageSize_width st) sw))
              (js_mul y1 (js_div (rs_imageSize_height st) (rs_imageSize_height st))) 40 n1 r1,
            createManualDetection (js_mul x2 (js_div (rs_imageSize_width st) sw))
              (js_mul y2 (js_div (rs_imageSize_height st) (rs_imageSize_height st))) 40 n2 r2],
         rs_manualCorrections := 2, rs_manualCountInput := ''2'' \<rparr>"
    unfolding handleImagePress_manual[OF m1] unfolding s1
    by (simp add: nat_to_string_small)
  have m2: "rs_mode ?s2 = Manual" "\<not> rs_isProcessing ?s2"
    unfolding s2 using assms(1,2) by simp_all
  show ?thesis
    unfolding handleImagePress_manual[OF m2] unfolding s2
    by (simp add: nat_to_string_small)
qed

lemma three_adds_one_remove:
  assumes "rs_mode st = Manual" "\<not> rs_isProcessing st"
    "rs_detections st = []" "rs_manualCorrections st = 0"
    and "distinct [''manual_'' @ nat_to_string n1 @ ''_'' @ r1,
                   ''manual_'' @ nat_to_string n2 @ ''_'' @ r2,
                   ''manual_'' @ nat_to_string n3 @ ''_'' @ r3]"
    and "target \<in> {''manual_'' @ nat_to_string n1 @ ''_'' @ r1,
                    ''manual_'' @ nat_to_string n2 @ ''_'' @ r2,
                    ''manual_'' @ nat_to_string n3 @ ''_'' @ r3}"
  shows "removeDetection target
           (handleImagePress sw x3 y3 n3 r3 (handleImagePress sw x2 y2 n2 r2
              (handleImagePress sw x1 y1 n1 r1 st))) =
     st\<lparr> rs_detections := filter (\<lambda>e. det_id e \<noteq> target)
           [createManualDetection (js_mul x1 (js_div (rs_imageSize_width st) sw))
              (js_mul y1 (js_div (rs_imageSize_height st) (rs_imageSize_height st))) 40 n1 r1,
            createManualDetection (js_mul x2 (js_div (rs_imageSize_width st) sw))
              (js_mul y2 (js_div (rs_imageSize_height st) (rs_imageSize_height st))) 40 n2 r2,
            createManualDetection (js_mul x3 (js_div (rs_imageSize_width st) sw))
              (js_mul y3 (js_div (rs_imageSize_height st) (rs_imageSize_height st))) 40 n3 r3],
         rs_manualCorrections := 4,
         rs_manualCountInput := ''2'' \<rparr> \<and>
   length (filter (\<lambda>e. det_id e \<noteq> target)
           [createManualDetection (js_mul x1 (js_div (rs_imageSize_width st) sw))
              (js_mul y1 (js_div (rs_imageSize_height st) (rs_imageSize_height st))) 40 n1 r1,
            createManualDetection (js_mul x2 (js_div (rs_imageSize_width st) sw))
              (js_mul y2 (js_div (rs_imageSize_height st) (rs_imageSize_height st))) 40 n2 r2,
            createManualDetection (js_mul x3 (js_div (rs_imageSize_width st) sw))
              (js_mul y3 (js_div (rs_imageSize_height st) (rs_imageSize_height st))) 40 n3 r3]) = 2"
proof -
  let ?s3 = "handleImagePress sw x3 y3 n3 r3 (handleImagePress sw x2 y2 n2 r2
              (handleImagePress sw x1 y1 n1 r1 st))"
  note s3 = three_adds[OF assms(1-4), of sw x3 y3 n3 r3 x2 y2 n2 r2 x1 y1 n1 r1]
  have m3: "rs_mode ?s3 = Manual" unfolding s3 using assms(1) by simp
  show ?thesis
    unfolding removeDetection_manual[OF m3] unfolding s3
    using assms(5,6) by (auto simp: nat_to_string_small)
qed

text \<open>
  C9. In Manual mode, a tap while no request is pending appends exactly one detection made
  by \<open>createManualDetection\<close>, adds 1 to the corrections, sets the count field to the new
  number of detections and changes nothing else of the state; once the image is laid out
  (its displayed width is the screen's width and its height is not 0) that detection is
  the 40 by 40 box centred at the tapped point, marked manual. Removing by an id deletes
  the detections with that id, adds 1 to the corrections, sets the count field to the new
  number of detections and changes nothing else; the ids being distinct, it deletes
  exactly the selected detection. From any Manual state with no detection, no correction
  and no pending request, three taps with distinct ids and the removal of one of them
  leave the 2 other detections, the count field \<open>2\<close> and 4 corrections.
\<close>

theorem manual_add_remove:
  assumes manual: "rs_mode st = Manual"
  shows
  "(\<not> rs_isProcessing st \<longrightarrow>
      handleImagePress screenWidth locationX locationY now rnd st =
        st\<lparr> rs_detections := rs_detections st @
               [createManualDetection (js_mul locationX (js_div (rs_imageSize_width st) screenWidth))
              (js_mul locationY (js_div (rs_imageSize_height st) (rs_imageSize_height st))) 40 now rnd],
            rs_manualCorrections := rs_manualCorrections st + 1,
            rs_manualCountInput := nat_to_string (length (rs_detections st) + 1) \<rparr> \<and>
      rs_manualCountInput (handleImagePress screenWidth locationX locationY now rnd st) =
        nat_to_string (length (rs_detections (handleImagePress screenWidth locationX locationY now rnd st)))) \<and>
   (rs_imageSize_width st = screenWidth \<and> screenWidth \<noteq> 0 \<and> rs_imageSize_height st \<noteq> 0 \<longrightarrow>
      createManualDetection (js_mul locationX (js_div (rs_imageSize_width st) screenWidth))
              (js_mul locationY (js_div (rs_imageSize_height st) (rs_imageSize_height st))) 40 now rnd =
        \<lparr> det_id = ''manual_'' @ nat_to_string now @ ''_'' @ rnd,
          det_bbox = \<lparr> bbox_x = Fin (locationX - 20), bbox_y = Fin (locationY - 20),
                       bbox_width = Fin 40, bbox_height = Fin 40 \<rparr>,
          det_confidence = 1, det_class = Some ''manual'', det_manual = Some True \<rparr>) \<and>
   removeDetection ident st =
     st\<lparr> rs_detections := filter (\<lambda>e. det_id e \<noteq> ident) (rs_detections st),
         rs_manualCorrections := rs_manualCorrections st + 1,
         rs_manualCountInput :=
           nat_to_string (length (filter (\<lambda>e. det_id e \<noteq> ident) (rs_detections st))) \<rparr> \<and>
   rs_manualCountInput (removeDetection ident st) =
     nat_to_string (length (rs_detections (removeDetection ident st))) \<and>
   (distinct (map det_id (rs_detections st)) \<and> d \<in> set (rs_detections st) \<longrightarrow>
      rs_detections (removeDetection (det_id d) st) = remove1 d (rs_detections st) \<and>
      length (rs_detections (removeDetection (det_id d) st)) = length (rs_detections st) - 1) \<and>
   (\<not> rs_isProcessing st \<and> rs_detections st = [] \<and> rs_manualCorrections st = 0 \<and>
    distinct [''manual_'' @ nat_to_string n1 @ ''_'' @ r1,
               ''manual_'' @ nat_to_string n2 @ ''_'' @ r2,
               ''manual_'' @ nat_to_string n3 @ ''_'' @ r3] \<and>
    target \<in> {''manual_'' @ nat_to_string n1 @ ''_'' @ r1,
               ''manual_'' @ nat_to_string n2 @ ''_'' @ r2,
               ''manual_'' @ nat_to_string n3 @ ''_'' @ r3} \<longrightarrow>
      removeDetection target
        (handleImagePress screenWidth x3 y3 n3 r3 (handleImagePress screenWidth x2 y2 n2 r2
              (handleImagePress screenWidth x1 y1 n1 r1 st))) =
        st\<lparr> rs_detections := filter (\<lambda>e. det_id e \<noteq> target)
              [createManualDetection (js_mul x1 (js_div (rs_imageSize_width st) screenWidth))
              (js_mul y1 (js_div (rs_imageSize_height st) (rs_imageSize_height st))) 40 n1 r1,
               createManualDetection (js_mul x2 (js_div (rs_imageSize_width st) screenWidth))
              (js_mul y2 (js_div (rs_imageSize_height st) (rs_imageSize_height st))) 40 n2 r2,
               createManualDetection (js_mul x3 (js_div (rs_imageSize_width st) screenWidth))
              (js_mul y3 (js_div (rs_imageSize_height st) (rs_imageSize_height st))) 40 n3 r3],
            rs_manualCorrections := 4,
            rs_manualCountInput := ''2'' \<rparr> \<and>
      length (rs_detections (removeDetection target
        (handleImagePress screenWidth x3 y3 n3 r3 (handleImagePress screenWidth x2 y2 n2 r2
              (handleImagePress screenWidth x1 y1 n1 r1 st))))) = 2 \<and>
      rs_manualCountInput (removeDetection target
        (handleImagePress screenWidth x3 y3 n3 r3 (handleImagePress screenWidth x2 y2 n2 r2
              (handleImagePress screenWidth x1 y1 n1 r1 st)))) = ''2'' \<and>
      rs_manualCorrections (removeDetection target
        (handleImagePress screenWidth x3 y3 n3 r3 (handleImagePress screenWidth x2 y2 n2 r2
              (handleImagePress screenWidth x1 y1 n1 r1 st)))) = 4)"
proof (intro conjI impI)
  assume idle: "\<not> rs_isProcessing st"
  show add: "handleImagePress screenWidth locationX locationY now rnd st =
        st\<lparr> rs_detections := rs_detections st @
               [createManualDetection (js_mul locationX (js_div (rs_imageSize_width st) screenWidth))
              (js_mul locationY (js_div (rs_imageSize_height st) (rs_imageSize_height st))) 40 now rnd],
            rs_manualCorrections := rs_manualCorrections st + 1,
            rs_manualCountInput := nat_to_string (length (rs_detections st) + 1) \<rparr>"
    by (rule handleImagePress_manual[OF manual idle])
  show "rs_manualCountInput (handleImagePress screenWidth locationX locationY now rnd st) =
        nat_to_string (length (rs_detections (handleImagePress screenWidth locationX locationY now rnd st)))"
    unfolding add by simp
next
  assume "rs_imageSize_width st = screenWidth \<and> screenWidth \<noteq> 0 \<and> rs_imageSize_height st \<noteq> 0"
  then show "createManualDetection (js_mul locationX (js_div (rs_imageSize_width st) screenWidth))
              (js_mul locationY (js_div (rs_imageSize_height st) (rs_imageSize_height st))) 40 now rnd =
        \<lparr> det_id = ''manual_'' @ nat_to_string now @ ''_'' @ rnd,
          det_bbox = \<lparr> bbox_x = Fin (locationX - 20), bbox_y = Fin (locationY - 20),
                       bbox_width = Fin 40, bbox_height = Fin 40 \<rparr>,
          det_confidence = 1, det_class = Some ''manual'', det_manual = Some True \<rparr>"
    by (simp add: createManualDetection_def js_div_def js_mul_def js_sub_def)
next
  show rem: "removeDetection ident st =
     st\<lparr> rs_detections := filter (\<lambda>e. det_id e \<noteq> ident) (rs_detections st),
         rs_manualCorrections := rs_manualCorrections st + 1,
         rs_manualCountInput :=
           nat_to_string (length (filter (\<lambda>e. det_id e \<noteq> ident) (rs_detections st))) \<rparr>"
    by (rule removeDetection_manual[OF manual])
  show "rs_manualCountInput (removeDetection ident st) =
     nat_to_string (length (rs_detections (removeDetection ident st)))"
    unfolding rem by simp
next
  assume a: "distinct (map det_id (rs_detections st)) \<and> d \<in> set (rs_detections st)"
  then have f: "filter (\<lambda>e. det_id e \<noteq> det_id d) (rs_detections st) = remove1 d (rs_detections st)"
    by (intro filter_other_ids) simp_all
  show r: "rs_detections (removeDetection (det_id d) st) = remove1 d (rs_detections st)"
    unfolding removeDetection_manual[OF manual] f by simp
  from a show "length (rs_detections (removeDetection (det_id d) st)) = length (rs_detections st) - 1"
    unfolding r by (simp add: length_remove1)
next
  assume h: "\<not> rs_isProcessing st \<and> rs_detections st = [] \<and> rs_manualCorrections st = 0 \<and>
    distinct [''manual_'' @ nat_to_string n1 @ ''_'' @ r1,
               ''manual_'' @ nat_to_string n2 @ ''_'' @ r2,
               ''manual_'' @ nat_to_string n3 @ ''_'' @ r3] \<and>
    target \<in> {''manual_'' @ nat_to_string n1 @ ''_'' @ r1,
               ''manual_'' @ nat_to_string n2 @ ''_'' @ r2,
               ''manual_'' @ nat_to_string n3 @ ''_'' @ r3}"
  from h have idle: "\<not> rs_isProcessing st" by (elim conjE)
  from h have empty: "rs_detections st = []" by (elim conjE)
  from h have zero: "rs_manualCorrections st = 0" by (elim conjE)
  from h have ids: "distinct [''manual_'' @ nat_to_string n1 @ ''_'' @ r1,
               ''manual_'' @ nat_to_string n2 @ ''_'' @ r2,
               ''manual_'' @ nat_to_string n3 @ ''_'' @ r3]"
    by (elim conjE)
  from h have tgt: "target \<in> {''manual_'' @ nat_to_string n1 @ ''_'' @ r1,
               ''manual_'' @ nat_to_string n2 @ ''_'' @ r2,
               ''manual_'' @ nat_to_string n3 @ ''_'' @ r3}"
    by (elim conjE)
  note sc = three_adds_one_remove[OF manual idle empty zero ids tgt,
      of screenWidth x3 y3 x2 y2 x1 y1]
  from sc show eq: "removeDetection target
        (handleImagePress screenWidth x3 y3 n3 r3 (handleImagePress screenWidth x2 y2 n2 r2
              (handleImagePress screenWidth x1 y1 n1 r1 st))) =
        st\<lparr> rs_detections := filter (\<lambda>e. det_id e \<noteq> target)
              [createManualDetection (js_mul x1 (js_div (rs_imageSize_width st) screenWidth))
              (js_mul y1 (js_div (rs_imageSize_height st) (rs_imageSize_height st))) 40 n1 r1,
               createManualDetection (js_mul x2 (js_div (rs_imageSize_width st) screenWidth))
              (js_mul y2 (js_div (rs_imageSize_height st) (rs_imageSize_height st))) 40 n2 r2,
               createManualDetection (js_mul x3 (js_div (rs_imageSize_width st) screenWidth))
              (js_mul y3 (js_div (rs_imageSize_height st) (rs_imageSize_height st))) 40 n3 r3],
            rs_manualCorrections := 4,
            rs_manualCountInput := ''2'' \<rparr>"
    by (elim conjE)
  from sc show "length (rs_detections (removeDetection target
        (handleImagePress screenWidth x3 y3 n3 r3 (handleImagePress screenWidth x2 y2 n2 r2
              (handleImagePress screenWidth x1 y1 n1 r1 st))))) = 2"
    unfolding eq by simp
  show "rs_manualCountInput (removeDetection target
        (handleImagePress screenWidth x3 y3 n3 r3 (handleImagePress screenWidth x2 y2 n2 r2
              (handleImagePress screenWidth x1 y1 n1 r1 st)))) = ''2''"
    unfolding eq by simp
  show "rs_manualCorrections (removeDetection target
        (handleImagePress screenWidth x3 y3 n3 r3 (handleImagePress screenWidth x2 y2 n2 r2
              (handleImagePress screenWidth x1 y1 n1 r1 st)))) = 4"
    unfolding eq by simp
qed

text \<open>
  Before the image is laid out the tap is still recorded, at a position that is not a
  number.
\<close>

lemma handleImagePress_before_layout:
  "rs_detections (handleImagePress 390 60 70 3 ''0.75'' initial_ReviewState) =
     [\<lparr> det_id = ''manual_3_0.75'',
        det_bbox = \<lparr> bbox_x = Fin (- 20), bbox_y = NaN, bbox_width = Fin 40, bbox_height = Fin 40 \<rparr>,
        det_confidence = 1, det_class = Some ''manual'', det_manual = Some True \<rparr>]"
  by (simp add: handleImagePress_def initial_ReviewState_def createManualDetection_def
      js_div_def js_mul_def js_sub_def nat_to_string_small Let_def)

theorem manual_add_remove_witness:
  "rs_mode review_two_taps = Manual \<and> \<not> rs_isProcessing review_two_taps \<and>
   rs_detections (handleImagePress 390 60 70 3 ''0.75'' review_two_taps) =
     [tap_1, tap_2,
      \<lparr> det_id = ''manual_3_0.75'',
        det_bbox = \<lparr> bbox_x = Fin 40, bbox_y = Fin 50, bbox_width = Fin 40, bbox_height = Fin 40 \<rparr>,
        det_confidence = 1, det_class = Some ''manual'', det_manual = Some True \<rparr>] \<and>
   rs_manualCorrections (handleImagePress 390 60 70 3 ''0.75'' review_two_taps) = 3 \<and>
   rs_manualCountInput (handleImagePress 390 60 70 3 ''0.75'' review_two_taps) = ''3'' \<and>
   rs_mode (handleImagePress 390 60 70 3 ''0.75'' review_two_taps) = Manual \<and>
   \<not> rs_isProcessing (handleImagePress 390 60 70 3 ''0.75'' review_two_taps) \<and>
   distinct (map det_id (rs_detections review_two_taps)) \<and>
   tap_1 \<in> set (rs_detections review_two_taps) \<and>
   rs_detections (removeDetection (det_id tap_1) review_two_taps) = [tap_2] \<and>
   rs_manualCorrections (removeDetection (det_id tap_1) review_two_taps) = 3 \<and>
   rs_manualCountInput (removeDetection (det_id tap_1) review_two_taps) = ''1'' \<and>
   rs_mode review_laid_out = Manual \<and> \<not> rs_isProcessing review_laid_out \<and>
   rs_detections review_laid_out = [] \<and> rs_manualCorrections review_laid_out = 0 \<and>
   rs_detections (removeDetection ''manual_2_0.5''
     (handleImagePress 390 60 70 3 ''0.75'' (handleImagePress 390 120 80 2 ''0.5''
        (handleImagePress 390 100 200 1 ''0.25'' review_laid_out)))) =
     [\<lparr> det_id = ''manual_1_0.25'',
        det_bbox = \<lparr> bbox_x = Fin 80, bbox_y = Fin 180, bbox_width = Fin 40, bbox_height = Fin 40 \<rparr>,
        det_confidence = 1, det_class = Some ''manual'', det_manual = Some True \<rparr>,
      \<lparr> det_id = ''manual_3_0.75'',
        det_bbox = \<lparr> bbox_x = Fin 40, bbox_y = Fin 50, bbox_width = Fin 40, bbox_height = Fin 40 \<rparr>,
        det_confidence = 1, det_class = Some ''manual'', det_manual = Some True \<rparr>] \<and>
   rs_manualCountInput (removeDetection ''manual_2_0.5''
     (handleImagePress 390 60 70 3 ''0.75'' (handleImagePress 390 120 80 2 ''0.5''
        (handleImagePress 390 100 200 1 ''0.25'' review_laid_out)))) = ''2'' \<and>
   rs_manualCorrections (removeDetection ''manual_2_0.5''
     (handleImagePress 390 60 70 3 ''0.75'' (handleImagePress 390 120 80 2 ''0.5''
        (handleImagePress 390 100 200 1 ''0.25'' review_laid_out)))) = 4"
proof -
  have m: "rs_mode review_two_taps = Manual" "rs_mode review_laid_out = Manual"
    by (simp_all add: review_two_taps_def review_laid_out_def initial_ReviewState_def)
  have i: "\<not> rs_isProcessing review_two_taps" "\<not> rs_isProcessing review_laid_out"
    by (simp_all add: review_two_taps_def review_laid_out_def initial_ReviewState_def)
  have e: "rs_detections review_laid_out = []" "rs_manualCorrections review_laid_out = 0"
    by (simp_all add: review_laid_out_def initial_ReviewState_def)
  have sz: "rs_imageSize_width review_two_taps = 390" "rs_imageSize_height review_two_taps = 520"
    "rs_imageSize_width review_laid_out = 390" "rs_imageSize_height review_laid_out = 520"
    by (simp_all add: review_two_taps_def review_laid_out_def)
  have ds: "rs_detections review_two_taps = [tap_1, tap_2]"
    "rs_manualCorrections review_two_taps = 2"
    by (simp_all add: review_two_taps_def)
  have ids: "det_id tap_1 = ''manual_1_0.25''" "det_id tap_2 = ''manual_2_0.5''"
    by (simp_all add: tap_1_def tap_2_def nat_to_string_small)
  have dist: "distinct (map det_id (rs_detections review_two_taps)) \<and>
              tap_1 \<in> set (rs_detections review_two_taps)"
    unfolding ds by (simp add: ids)
  have names: "distinct [''manual_'' @ nat_to_string 1 @ ''_'' @ ''0.25'',
                         ''manual_'' @ nat_to_string 2 @ ''_'' @ ''0.5'',
                         ''manual_'' @ nat_to_string 3 @ ''_'' @ ''0.75''] \<and>
               ''manual_2_0.5'' \<in> {''manual_'' @ nat_to_string 1 @ ''_'' @ ''0.25'',
                         ''manual_'' @ nat_to_string 2 @ ''_'' @ ''0.5'',
                         ''manual_'' @ nat_to_string 3 @ ''_'' @ ''0.75''}"
    by (simp add: nat_to_string_small)
  have cells: "js_mul 60 (js_div 390 390) = Fin 60" "js_mul 70 (js_div 520 520) = Fin 70"
    "js_mul 100 (js_div 390 390) = Fin 100" "js_mul 200 (js_div 520 520) = Fin 200"
    "js_mul 120 (js_div 390 390) = Fin 120" "js_mul 80 (js_div 520 520) = Fin 80"
    by (simp_all add: js_div_def js_mul_def)
  note two = manual_add_remove [OF m(1), where screenWidth = 390 and locationX = 60
      and locationY = 70 and now = 3 and rnd = "''0.75''" and d = tap_1
      and ident = "det_id tap_1"]
  note laid = manual_add_remove [OF m(2), where screenWidth = 390
      and target = "''manual_2_0.5''"
      and ?x1.0 = 100 and ?y1.0 = 200 and ?n1.0 = 1 and ?r1.0 = "''0.25''"
      and ?x2.0 = 120 and ?y2.0 = 80 and ?n2.0 = 2 and ?r2.0 = "''0.5''"
      and ?x3.0 = 60 and ?y3.0 = 70 and ?n3.0 = 3 and ?r3.0 = "''0.75''"]
  from two i(1) have add: "handleImagePress 390 60 70 3 ''0.75'' review_two_taps =
      review_two_taps\<lparr> rs_detections := rs_detections review_two_taps @
          [createManualDetection (js_mul 60 (js_div (rs_imageSize_width review_two_taps) 390))
             (js_mul 70 (js_div (rs_imageSize_height review_two_taps)
                (rs_imageSize_height review_two_taps))) 40 3 ''0.75''],
        rs_manualCorrections := rs_manualCorrections review_two_taps + 1,
        rs_manualCountInput := nat_to_string (length (rs_detections review_two_taps) + 1) \<rparr>"
    by blast
  from two have rem: "removeDetection (det_id tap_1) review_two_taps =
      review_two_taps\<lparr> rs_detections :=
          filter (\<lambda>e. det_id e \<noteq> det_id tap_1) (rs_detections review_two_taps),
        rs_manualCorrections := rs_manualCorrections review_two_taps + 1,
        rs_manualCountInput := nat_to_string (length
          (filter (\<lambda>e. det_id e \<noteq> det_id tap_1) (rs_detections review_two_taps))) \<rparr>"
    by blast
  from laid i(2) e names have scen: "removeDetection ''manual_2_0.5''
     (handleImagePress 390 60 70 3 ''0.75'' (handleImagePress 390 120 80 2 ''0.5''
        (handleImagePress 390 100 200 1 ''0.25'' review_laid_out))) =
      review_laid_out\<lparr> rs_detections := filter (\<lambda>e. det_id e \<noteq> ''manual_2_0.5'')
          [createManualDetection (js_mul 100 (js_div (rs_imageSize_width review_laid_out) 390))
             (js_mul 200 (js_div (rs_imageSize_height review_laid_out)
                (rs_imageSize_height review_laid_out))) 40 1 ''0.25'',
           createManualDetection (js_mul 120 (js_div (rs_imageSize_width review_laid_out) 390))
             (js_mul 80 (js_div (rs_imageSize_height review_laid_out)
                (rs_imageSize_height review_laid_out))) 40 2 ''0.5'',
           createManualDetection (js_mul 60 (js_div (rs_imageSize_width review_laid_out) 390))
             (js_mul 70 (js_div (rs_imageSize_height review_laid_out)
                (rs_imageSize_height review_laid_out))) 40 3 ''0.75''],
        rs_manualCorrections := 4, rs_manualCountInput := ''2'' \<rparr>"
    by blast
  have a: "rs_detections (handleImagePress 390 60 70 3 ''0.75'' review_two_taps) =
     [tap_1, tap_2,
      \<lparr> det_id = ''manual_3_0.75'',
        det_bbox = \<lparr> bbox_x = Fin 40, bbox_y = Fin 50, bbox_width = Fin 40, bbox_height = Fin 40 \<rparr>,
        det_confidence = 1, det_class = Some ''manual'', det_manual = Some True \<rparr>]"
    "rs_manualCorrections (handleImagePress 390 60 70 3 ''0.75'' review_two_taps) = 3"
    "rs_manualCountInput (handleImagePress 390 60 70 3 ''0.75'' review_two_taps) = ''3''"
    "rs_mode (handleImagePress 390 60 70 3 ''0.75'' review_two_taps) = Manual"
    "\<not> rs_isProcessing (handleImagePress 390 60 70 3 ''0.75'' review_two_taps)"
    unfolding add sz ds cells using m(1) i(1)
    by (simp_all add: createManualDetection_def js_sub_def nat_to_string_small)
  have b: "rs_detections (removeDetection (det_id tap_1) review_two_taps) = [tap_2]"
    "rs_manualCorrections (removeDetection (det_id tap_1) review_two_taps) = 3"
    "rs_manualCountInput (removeDetection (det_id tap_1) review_two_taps) = ''1''"
    unfolding rem ds by (simp_all add: ids nat_to_string_small)
  have c: "rs_detections (removeDetection ''manual_2_0.5''
     (handleImagePress 390 60 70 3 ''0.75'' (handleImagePress 390 120 80 2 ''0.5''
        (handleImagePress 390 100 200 1 ''0.25'' review_laid_out)))) =
     [\<lparr> det_id = ''manual_1_0.25'',
        det_bbox = \<lparr> bbox_x = Fin 80, bbox_y = Fin 180, bbox_width = Fin 40, bbox_height = Fin 40 \<rparr>,
        det_confidence = 1, det_class = Some ''manual'', det_manual = Some True \<rparr>,
      \<lparr> det_id = ''manual_3_0.75'',
        det_bbox = \<lparr> bbox_x = Fin 40, bbox_y = Fin 50, bbox_width = Fin 40, bbox_height = Fin 40 \<rparr>,
        det_confidence = 1, det_class = Some ''manual'', det_manual = Some True \<rparr>]"
    "rs_manualCountInput (removeDetection ''manual_2_0.5''
     (handleImagePress 390 60 70 3 ''0.75'' (handleImagePress 390 120 80 2 ''0.5''
        (handleImagePress 390 100 200 1 ''0.25'' review_laid_out)))) = ''2''"
    "rs_manualCorrections (removeDetection ''manual_2_0.5''
     (handleImagePress 390 60 70 3 ''0.75'' (handleImagePress 390 120 80 2 ''0.5''
        (handleImagePress 390 100 200 1 ''0.25'' review_laid_out)))) = 4"
    unfolding scen sz cells
    by (simp_all add: createManualDetection_def js_sub_def nat_to_string_small)
  from m i e dist a b c show ?thesis by (simp only: simp_thms)
qed

end
